theory Spec2Isabelle
  imports Main "HOL-Library.Word"
begin

section \<open>A shared-ownership handle: the embedding of shared.h\<close>

text \<open>
  The C++ header is embedded over an explicit store. Heap allocations are numbered
  by a bump allocator; a data pointer is either null or names an allocation together
  with the index of the sub-object it points at (index 0 is the object itself), so
  that an aliasing handle can point into the middle of an owned object. Handles are
  objects of the caller; since \<open>operator=\<close> and \<open>Swap\<close> take their argument by
  reference, which may be the handle itself, handles live in a store of variables
  and every member function receives the variable it is called on.

  The payload types are those of the caller. What the header needs of them is the
  implicit conversion from \<open>Y*\<close> to \<open>T*\<close> that initialises \<open>T* data_\<close> from a pointer
  to a convertible type: such a conversion moves a pointer that is not null to the
  base sub-object, by an offset that the declarations of the two classes fix. The
  store carries these offsets; no operation writes them.

  Undefined behaviour of the C++ program (reading through a null or dangling
  control-block pointer, deleting what is not a live object) is a value of type
  \<open>error\<close>. Unsigned arithmetic on \<open>size_t\<close> wraps and is modelled by 64-bit words.
  Allocation is assumed to succeed.
\<close>

type_synonym addr = nat
type_synonym var = nat
type_synonym pointer = "(addr \<times> nat) option"

datatype error = NullDereference | UseAfterFree | InvalidDelete | InvalidPointer | NoSuchHandle

text \<open>
  The two control blocks of the source, \<open>ControlBlockPtr<Y>\<close> and
  \<open>ControlBlockHolder<Y>\<close>. Both inherit \<open>ref_cnt\<close> from \<open>ControlBlockBase\<close>; the template
  argument \<open>Y\<close> is kept as a tag, because it decides which destructor the block runs.
  The first holds \<open>ptr_\<close>, the second the storage with the value built in place.
\<close>

datatype ('ty, 'v) ControlBlockBase =
    ControlBlockPtr (ref_cnt: "64 word") 'ty pointer
  | ControlBlockHolder (ref_cnt: "64 word") 'ty "'v list"

fun set_ref_cnt :: "64 word \<Rightarrow> ('ty, 'v) ControlBlockBase \<Rightarrow> ('ty, 'v) ControlBlockBase" where
  "set_ref_cnt c (ControlBlockPtr _ Y p) = ControlBlockPtr c Y p"
| "set_ref_cnt c (ControlBlockHolder _ Y fs) = ControlBlockHolder c Y fs"

text \<open>
  \<open>SharedPtr<T>\<close>: the two fields of the class, and the template argument \<open>T\<close> as a
  third component (it is fixed when the handle is constructed and never changes).
\<close>

record 'ty SharedPtr =
  data :: pointer
  control_block :: "addr option"
  elem_type :: 'ty

text \<open>
  What an observer outside the header can see happen: \<open>operator new\<close> and
  \<open>operator delete\<close> (the tests count allocations), the destructor of a payload
  type running on an object (the tests set a flag in the destructor), and the
  writes to a reference count.
\<close>

datatype 'ty event =
    Alloc addr
  | Free addr
  | Destroy 'ty "addr \<times> nat"
  | Inc addr
  | Dec addr

record ('ty, 'v) state =
  vars :: "var \<rightharpoonup> 'ty SharedPtr"
  blocks :: "addr \<rightharpoonup> ('ty, 'v) ControlBlockBase"
  objects :: "addr \<rightharpoonup> 'v list"
  next_addr :: addr
  trace :: "'ty event list"
  layout :: "'ty \<Rightarrow> 'ty \<Rightarrow> nat"

text \<open>
  \<open>layout st Y T\<close> is the index, within an object of type \<open>Y\<close>, of its base sub-object of
  type \<open>T\<close>. The empty store below has every base at the start of the object; any
  other layout is \<open>init_state\<lparr>layout := L\<rparr>\<close>.
\<close>

definition init_state :: "('ty, 'v) state" where
  "init_state = \<lparr>vars = Map.empty, blocks = Map.empty, objects = Map.empty,
                 next_addr = 0, trace = [], layout = (\<lambda>Y T. 0)\<rparr>"

text \<open>
  The implicit conversion of a \<open>Y*\<close> to a \<open>T*\<close>: a null pointer stays null, a conversion
  to the same type changes nothing, and otherwise the pointer moves on to the base
  sub-object.
\<close>

definition convert_pointer :: "('ty, 'v) state \<Rightarrow> 'ty \<Rightarrow> 'ty \<Rightarrow> pointer \<Rightarrow> pointer" where
  "convert_pointer st Y T p =
     (case p of
        None \<Rightarrow> None
      | Some (a, i) \<Rightarrow> if Y = T then Some (a, i) else Some (a, i + layout st Y T))"

definition and_then :: "error + 'a \<Rightarrow> ('a \<Rightarrow> error + 'b) \<Rightarrow> error + 'b" where
  "and_then r f = (case r of Inl e \<Rightarrow> Inl e | Inr x \<Rightarrow> f x)"

definition get_handle :: "('ty, 'v) state \<Rightarrow> var \<Rightarrow> error + 'ty SharedPtr" where
  "get_handle st h = (case vars st h of None \<Rightarrow> Inl NoSuchHandle | Some x \<Rightarrow> Inr x)"

definition set_handle :: "('ty, 'v) state \<Rightarrow> var \<Rightarrow> 'ty SharedPtr \<Rightarrow> ('ty, 'v) state" where
  "set_handle st h x = st\<lparr>vars := (vars st)(h \<mapsto> x)\<rparr>"

subsection \<open>The caller's allocations and the allocation of a control block\<close>

text \<open>\<open>new Y(...)\<close> in the caller: a fresh object, whose address the caller then hands over.\<close>

definition new_object :: "('ty, 'v) state \<Rightarrow> 'v list \<Rightarrow> addr \<times> ('ty, 'v) state" where
  "new_object st fs =
     (next_addr st,
      st\<lparr>objects := (objects st)(next_addr st \<mapsto> fs),
         next_addr := Suc (next_addr st),
         trace := trace st @ [Alloc (next_addr st)]\<rparr>)"

text \<open>\<open>new ControlBlockPtr<Y>(ptr)\<close> and \<open>new ControlBlockHolder<Y>(args...)\<close>.\<close>

definition new_block ::
  "('ty, 'v) state \<Rightarrow> ('ty, 'v) ControlBlockBase \<Rightarrow> addr \<times> ('ty, 'v) state" where
  "new_block st blk =
     (next_addr st,
      st\<lparr>blocks := (blocks st)(next_addr st \<mapsto> blk),
         next_addr := Suc (next_addr st),
         trace := trace st @ [Alloc (next_addr st)]\<rparr>)"

subsection \<open>Deleting a control block\<close>

text \<open>
  \<open>delete control_block_\<close> goes through the virtual destructor of \<open>ControlBlockBase\<close>.
  \<open>~ControlBlockPtr\<close> runs \<open>delete ptr_\<close> when \<open>ptr_\<close> is not null: the destructor of \<open>Y\<close>
  and the deallocation of the object, which must be a live separately allocated one.
  \<open>~ControlBlockHolder\<close> runs \<open>~Y()\<close> on the storage inside the block. Then the block
  itself is deallocated.
\<close>

definition delete_block :: "('ty, 'v) state \<Rightarrow> addr \<Rightarrow> error + ('ty, 'v) state" where
  "delete_block st b =
     (case blocks st b of
        None \<Rightarrow> Inl UseAfterFree
      | Some (ControlBlockPtr c Y p) \<Rightarrow>
          (case p of
             None \<Rightarrow> Inr (st\<lparr>blocks := (blocks st)(b := None), trace := trace st @ [Free b]\<rparr>)
           | Some (a, i) \<Rightarrow>
               (if i = 0 \<and> objects st a \<noteq> None
                then Inr (st\<lparr>blocks := (blocks st)(b := None),
                            objects := (objects st)(a := None),
                            trace := trace st @ [Destroy Y (a, 0), Free a, Free b]\<rparr>)
                else Inl InvalidDelete))
      | Some (ControlBlockHolder c Y fs) \<Rightarrow>
          Inr (st\<lparr>blocks := (blocks st)(b := None),
                 trace := trace st @ [Destroy Y (b, 0), Free b]\<rparr>))"

text \<open>
  The release that \<open>~SharedPtr\<close>, \<open>Reset()\<close> and \<open>Reset(Y*)\<close> each spell out
  (lines 134-140, 147-153 and 161-167 of shared.h are the same statement):
  \<^verbatim>\<open>if (control_block_) { if (control_block_->ref_cnt == 1) delete control_block_;
                          else --control_block_->ref_cnt; }\<close>
\<close>

definition release :: "('ty, 'v) state \<Rightarrow> addr option \<Rightarrow> error + ('ty, 'v) state" where
  "release st cb =
     (case cb of
        None \<Rightarrow> Inr st
      | Some b \<Rightarrow>
          (case blocks st b of
             None \<Rightarrow> Inl UseAfterFree
           | Some blk \<Rightarrow>
               if ref_cnt blk = 1 then delete_block st b
               else Inr (st\<lparr>blocks := (blocks st)(b \<mapsto> set_ref_cnt (ref_cnt blk - 1) blk),
                           trace := trace st @ [Dec b]\<rparr>)))"

text \<open>\<open>if (control_block_) ++control_block_->ref_cnt;\<close> of the copying operations.\<close>

definition increment :: "('ty, 'v) state \<Rightarrow> addr \<Rightarrow> error + ('ty, 'v) state" where
  "increment st b =
     (case blocks st b of
        None \<Rightarrow> Inl UseAfterFree
      | Some blk \<Rightarrow>
          Inr (st\<lparr>blocks := (blocks st)(b \<mapsto> set_ref_cnt (ref_cnt blk + 1) blk),
                 trace := trace st @ [Inc b]\<rparr>))"

definition acquire :: "('ty, 'v) state \<Rightarrow> addr option \<Rightarrow> error + ('ty, 'v) state" where
  "acquire st cb = (case cb of None \<Rightarrow> Inr st | Some b \<Rightarrow> increment st b)"

subsection \<open>Constructors\<close>

text \<open>\<open>SharedPtr()\<close> and \<open>SharedPtr(std::nullptr_t)\<close>.\<close>

definition SharedPtr_default :: "('ty, 'v) state \<Rightarrow> var \<Rightarrow> 'ty \<Rightarrow> error + ('ty, 'v) state" where
  "SharedPtr_default st this T =
     Inr (set_handle st this \<lparr>data = None, control_block = None, elem_type = T\<rparr>)"

definition SharedPtr_nullptr :: "('ty, 'v) state \<Rightarrow> var \<Rightarrow> 'ty \<Rightarrow> error + ('ty, 'v) state" where
  "SharedPtr_nullptr st this T =
     Inr (set_handle st this \<lparr>data = None, control_block = None, elem_type = T\<rparr>)"

text \<open>
  \<open>explicit SharedPtr(Y* ptr)\<close> of \<open>SharedPtr<T>\<close>: no test of \<open>ptr\<close>, always a new block.
  \<open>data_(ptr)\<close> converts the \<open>Y*\<close> to \<open>T*\<close>; the block keeps the \<open>Y*\<close> itself.
\<close>

definition SharedPtr_ptr ::
  "('ty, 'v) state \<Rightarrow> var \<Rightarrow> 'ty \<Rightarrow> 'ty \<Rightarrow> pointer \<Rightarrow> error + ('ty, 'v) state" where
  "SharedPtr_ptr st this T Y ptr =
     (case new_block st (ControlBlockPtr 1 Y ptr) of
        (b, st') \<Rightarrow>
          Inr (set_handle st' this
                 \<lparr>data = convert_pointer st Y T ptr, control_block = Some b,
                  elem_type = T\<rparr>))"

text \<open>
  The copy constructor, and the converting copy constructor from \<open>SharedPtr<Y>\<close>, whose
  body is the same; there the new handle has its own element type \<open>T\<close>, and
  \<open>data_(other.data_)\<close> converts the \<open>Y*\<close> of \<open>other\<close> to \<open>T*\<close>.
\<close>

definition SharedPtr_copy_conv ::
  "('ty, 'v) state \<Rightarrow> var \<Rightarrow> 'ty \<Rightarrow> var \<Rightarrow> error + ('ty, 'v) state" where
  "SharedPtr_copy_conv st this T other =
     and_then (get_handle st other) (\<lambda>oth.
       acquire (set_handle st this
                  \<lparr>data = convert_pointer st (elem_type oth) T (data oth),
                   control_block = control_block oth, elem_type = T\<rparr>)
               (control_block oth))"

definition SharedPtr_copy :: "('ty, 'v) state \<Rightarrow> var \<Rightarrow> var \<Rightarrow> error + ('ty, 'v) state" where
  "SharedPtr_copy st this other =
     and_then (get_handle st other) (\<lambda>oth.
       acquire (set_handle st this
                  \<lparr>data = data oth, control_block = control_block oth,
                   elem_type = elem_type oth\<rparr>)
               (control_block oth))"

text \<open>
  The move constructor and the converting move constructor, the latter with the same
  conversion of \<open>other.data_\<close>.
\<close>

definition SharedPtr_move_conv ::
  "('ty, 'v) state \<Rightarrow> var \<Rightarrow> 'ty \<Rightarrow> var \<Rightarrow> error + ('ty, 'v) state" where
  "SharedPtr_move_conv st this T other =
     and_then (get_handle st other) (\<lambda>oth.
       Inr (set_handle
              (set_handle st this
                 \<lparr>data = convert_pointer st (elem_type oth) T (data oth),
                  control_block = control_block oth, elem_type = T\<rparr>)
              other (oth\<lparr>data := None, control_block := None\<rparr>)))"

definition SharedPtr_move :: "('ty, 'v) state \<Rightarrow> var \<Rightarrow> var \<Rightarrow> error + ('ty, 'v) state" where
  "SharedPtr_move st this other =
     and_then (get_handle st other) (\<lambda>oth.
       Inr (set_handle
              (set_handle st this
                 \<lparr>data = data oth, control_block = control_block oth,
                  elem_type = elem_type oth\<rparr>)
              other (oth\<lparr>data := None, control_block := None\<rparr>)))"

text \<open>
  The aliasing constructor \<open>SharedPtr(const SharedPtr<Y>& other, T* ptr)\<close>: the count is
  incremented without a test, so a null \<open>other.control_block_\<close> is dereferenced.
\<close>

definition SharedPtr_alias ::
  "('ty, 'v) state \<Rightarrow> var \<Rightarrow> 'ty \<Rightarrow> var \<Rightarrow> pointer \<Rightarrow> error + ('ty, 'v) state" where
  "SharedPtr_alias st this T other ptr =
     and_then (get_handle st other) (\<lambda>oth.
       case control_block oth of
         None \<Rightarrow> Inl NullDereference
       | Some b \<Rightarrow>
           increment (set_handle st this
                        \<lparr>data = ptr, control_block = Some b, elem_type = T\<rparr>) b)"

subsection \<open>Destructor and modifiers\<close>

text \<open>\<open>~SharedPtr()\<close>: the release; afterwards the variable holds no handle any more.\<close>

definition SharedPtr_dtor :: "('ty, 'v) state \<Rightarrow> var \<Rightarrow> error + ('ty, 'v) state" where
  "SharedPtr_dtor st this =
     and_then (get_handle st this) (\<lambda>h.
       and_then (release st (control_block h)) (\<lambda>st'.
         Inr (st'\<lparr>vars := (vars st')(this := None)\<rparr>)))"

definition Reset :: "('ty, 'v) state \<Rightarrow> var \<Rightarrow> error + ('ty, 'v) state" where
  "Reset st this =
     and_then (get_handle st this) (\<lambda>h.
       and_then (release st (control_block h)) (\<lambda>st'.
         Inr (set_handle st' this (h\<lparr>data := None, control_block := None\<rparr>))))"

text \<open>
  \<open>Reset(Y* ptr)\<close>: the release, then \<open>data_ = ptr\<close>, which converts the \<open>Y*\<close> to the \<open>T*\<close> of
  this handle, and a new block that keeps the \<open>Y*\<close>.
\<close>

definition Reset_ptr ::
  "('ty, 'v) state \<Rightarrow> var \<Rightarrow> 'ty \<Rightarrow> pointer \<Rightarrow> error + ('ty, 'v) state" where
  "Reset_ptr st this Y ptr =
     and_then (get_handle st this) (\<lambda>h.
       and_then (release st (control_block h)) (\<lambda>st'.
         case new_block st' (ControlBlockPtr 1 Y ptr) of
           (b, st'') \<Rightarrow>
             Inr (set_handle st'' this
                    (h\<lparr>data := convert_pointer st Y (elem_type h) ptr,
                       control_block := Some b\<rparr>))))"

text \<open>
  \<open>operator=(const SharedPtr& other)\<close>: \<open>Reset()\<close> comes first, and \<open>other\<close> is read after
  it; there is no test for \<open>this == &other\<close>.
\<close>

definition assign_copy :: "('ty, 'v) state \<Rightarrow> var \<Rightarrow> var \<Rightarrow> error + ('ty, 'v) state" where
  "assign_copy st this other =
     and_then (Reset st this) (\<lambda>st1.
       and_then (get_handle st1 this) (\<lambda>h.
         and_then (get_handle st1 other) (\<lambda>oth.
           acquire (set_handle st1 this
                      (h\<lparr>data := data oth, control_block := control_block oth\<rparr>))
                   (control_block oth))))"

text \<open>\<open>operator=(SharedPtr&& other)\<close>: again \<open>Reset()\<close> first, then the four assignments.\<close>

definition assign_move :: "('ty, 'v) state \<Rightarrow> var \<Rightarrow> var \<Rightarrow> error + ('ty, 'v) state" where
  "assign_move st this other =
     and_then (Reset st this) (\<lambda>st1.
       and_then (get_handle st1 this) (\<lambda>h.
         and_then (get_handle st1 other) (\<lambda>oth.
           (let st2 = set_handle st1 this
                        (h\<lparr>data := data oth, control_block := control_block oth\<rparr>)
            in and_then (get_handle st2 other) (\<lambda>oth2.
                 Inr (set_handle st2 other (oth2\<lparr>data := None, control_block := None\<rparr>)))))))"

text \<open>
  \<open>Swap\<close>: \<open>auto tmp = *this; *this = other; other = tmp;\<close> and the destructor of \<open>tmp\<close> at
  the end of the body. \<open>tmp\<close> is the variable of the local.
\<close>

definition Swap :: "('ty, 'v) state \<Rightarrow> var \<Rightarrow> var \<Rightarrow> var \<Rightarrow> error + ('ty, 'v) state" where
  "Swap st this other tmp =
     and_then (SharedPtr_copy st tmp this) (\<lambda>st1.
       and_then (assign_copy st1 this other) (\<lambda>st2.
         and_then (assign_copy st2 other tmp) (\<lambda>st3.
           SharedPtr_dtor st3 tmp)))"

subsection \<open>Observers\<close>

definition Get :: "('ty, 'v) state \<Rightarrow> var \<Rightarrow> error + pointer" where
  "Get st this = and_then (get_handle st this) (\<lambda>h. Inr (data h))"

text \<open>
  Reading memory through a data pointer: the pointer must name a sub-object of a live
  object, or of the value stored inside a live \<open>ControlBlockHolder\<close>.
\<close>

definition load :: "('ty, 'v) state \<Rightarrow> pointer \<Rightarrow> error + 'v" where
  "load st p =
     (case p of
        None \<Rightarrow> Inl NullDereference
      | Some (a, i) \<Rightarrow>
          (case objects st a of
             Some fs \<Rightarrow> if i < length fs then Inr (fs ! i) else Inl InvalidPointer
           | None \<Rightarrow>
               (case blocks st a of
                  Some (ControlBlockHolder c Y fs) \<Rightarrow>
                    if i < length fs then Inr (fs ! i) else Inl InvalidPointer
                | _ \<Rightarrow> Inl UseAfterFree)))"

text \<open>\<open>operator*\<close>\<close>

definition deref :: "('ty, 'v) state \<Rightarrow> var \<Rightarrow> error + 'v" where
  "deref st this = and_then (get_handle st this) (\<lambda>h. load st (data h))"

definition UseCount :: "('ty, 'v) state \<Rightarrow> var \<Rightarrow> error + 64 word" where
  "UseCount st this =
     and_then (get_handle st this) (\<lambda>h.
       case control_block h of
         None \<Rightarrow> Inr 0
       | Some b \<Rightarrow>
           (case blocks st b of None \<Rightarrow> Inl UseAfterFree | Some blk \<Rightarrow> Inr (ref_cnt blk)))"

definition operator_bool :: "('ty, 'v) state \<Rightarrow> var \<Rightarrow> error + bool" where
  "operator_bool st this =
     and_then (get_handle st this) (\<lambda>h. Inr (if data h \<noteq> None then True else False))"

subsection \<open>The factory\<close>

text \<open>
  \<open>MakeShared<Y>(args...)\<close>: a default-constructed handle, one \<open>new ControlBlockHolder<Y>\<close>
  whose constructor builds the \<open>Y\<close> in the storage by placement new, then the two fields
  are set. \<open>ctor\<close> is the constructor of \<open>Y\<close>, a function of the arguments; \<open>this\<close> is the
  variable that receives the returned handle.
\<close>

definition MakeShared ::
  "('ty, 'v) state \<Rightarrow> var \<Rightarrow> 'ty \<Rightarrow> ('a \<Rightarrow> 'v list) \<Rightarrow> 'a \<Rightarrow> error + ('ty, 'v) state" where
  "MakeShared st this Y ctor args =
     and_then (SharedPtr_default st this Y) (\<lambda>st0.
       and_then (get_handle st0 this) (\<lambda>h.
         case new_block st0 (ControlBlockHolder 1 Y (ctor args)) of
           (block, st1) \<Rightarrow>
             Inr (set_handle st1 this (h\<lparr>control_block := Some block, data := Some (block, 0)\<rparr>))))"

subsection \<open>What the destruction of a block does, and sequences of releases\<close>

text \<open>
  The events of destroying block \<open>b\<close>, by the kind of block: a \<open>ControlBlockPtr\<close> with a
  null \<open>ptr_\<close> owns no object, otherwise the destructor of the block's own type \<open>Y\<close> runs
  once on the owned object.
\<close>

fun destruction :: "addr \<Rightarrow> ('ty, 'v) ControlBlockBase \<Rightarrow> 'ty event list" where
  "destruction b (ControlBlockPtr c Y None) = [Free b]"
| "destruction b (ControlBlockPtr c Y (Some (a, i))) = [Destroy Y (a, 0), Free a, Free b]"
| "destruction b (ControlBlockHolder c Y fs) = [Destroy Y (b, 0), Free b]"

text \<open>The separately allocated object that a block owns, if any.\<close>

fun owned_object :: "('ty, 'v) ControlBlockBase \<Rightarrow> addr option" where
  "owned_object (ControlBlockPtr c Y None) = None"
| "owned_object (ControlBlockPtr c Y (Some (a, i))) = Some a"
| "owned_object (ControlBlockHolder c Y fs) = None"

text \<open>
  \<open>delete ptr_\<close> is defined only on a pointer that \<open>new\<close> returned and that was not
  deleted since: the block's \<open>ptr_\<close> is null or points at a live object itself.
\<close>

fun deletable :: "('ty, 'v) state \<Rightarrow> ('ty, 'v) ControlBlockBase \<Rightarrow> bool" where
  "deletable st (ControlBlockPtr c Y None) = True"
| "deletable st (ControlBlockPtr c Y (Some (a, i))) = (i = 0 \<and> objects st a \<noteq> None)"
| "deletable st (ControlBlockHolder c Y fs) = True"

fun is_Destroy :: "'ty event \<Rightarrow> bool" where
  "is_Destroy (Destroy Y p) = True"
| "is_Destroy _ = False"

fun is_Alloc :: "'ty event \<Rightarrow> bool" where
  "is_Alloc (Alloc a) = True"
| "is_Alloc _ = False"

text \<open>
  A handle gives up its reference when it is destroyed or reset. A list of such
  releases, run in order, is what the end of a caller's scope (or a series of
  \<open>Reset()\<close> calls) does.
\<close>

datatype release_action = ByDestructor var | ByReset var

fun handle_of :: "release_action \<Rightarrow> var" where
  "handle_of (ByDestructor h) = h"
| "handle_of (ByReset h) = h"

fun run_release :: "('ty, 'v) state \<Rightarrow> release_action \<Rightarrow> error + ('ty, 'v) state" where
  "run_release st (ByDestructor h) = SharedPtr_dtor st h"
| "run_release st (ByReset h) = Reset st h"

fun release_all :: "('ty, 'v) state \<Rightarrow> release_action list \<Rightarrow> error + ('ty, 'v) state" where
  "release_all st [] = Inr st"
| "release_all st (a # as) = and_then (run_release st a) (\<lambda>st'. release_all st' as)"

subsection \<open>Reachable states\<close>

text \<open>
  No reference count stands at \<open>2^64 - 1\<close>. A count is raised once per handle that
  shares the block, and \<open>2^64 - 1\<close> handles of sixteen bytes each do not fit a 64-bit
  address space; the condition is what keeps \<open>++ref_cnt\<close> from wrapping to 0. It is
  asked of the store in which a copying operation starts (\<open>Swap\<close> does not need it: each
  of its increments is undone before the next).
\<close>

definition counts_below_max :: "('ty, 'v) state \<Rightarrow> bool" where
  "counts_below_max st = (\<forall>b blk. blocks st b = Some blk \<longrightarrow> ref_cnt blk \<noteq> - 1)"

text \<open>
  The states a caller can bring about from the empty store, under any layout of its
  classes, with the public interface of the header, every call returning normally.
  A constructor runs on a variable that
  holds no handle; the local \<open>tmp\<close> of \<open>Swap\<close> is such a variable too. The factory
  depends on its constructor and arguments only through the value built, so the
  arguments are taken to be a list of values here, which loses no store.
\<close>

inductive reachable :: "('ty, 'v) state \<Rightarrow> bool" where
  r_init: "reachable (init_state\<lparr>layout := L\<rparr>)"
| r_new_object: "reachable s \<Longrightarrow> new_object s fs = (a, s') \<Longrightarrow> reachable s'"
| r_default: "reachable s \<Longrightarrow> vars s h = None \<Longrightarrow> SharedPtr_default s h T = Inr s' \<Longrightarrow> reachable s'"
| r_nullptr: "reachable s \<Longrightarrow> vars s h = None \<Longrightarrow> SharedPtr_nullptr s h T = Inr s' \<Longrightarrow> reachable s'"
| r_ptr: "reachable s \<Longrightarrow> vars s h = None \<Longrightarrow> SharedPtr_ptr s h T Y p = Inr s' \<Longrightarrow> reachable s'"
| r_copy: "reachable s \<Longrightarrow> vars s h = None \<Longrightarrow> counts_below_max s \<Longrightarrow>
           SharedPtr_copy s h other = Inr s' \<Longrightarrow> reachable s'"
| r_copy_conv: "reachable s \<Longrightarrow> vars s h = None \<Longrightarrow> counts_below_max s \<Longrightarrow>
           SharedPtr_copy_conv s h T other = Inr s' \<Longrightarrow> reachable s'"
| r_move: "reachable s \<Longrightarrow> vars s h = None \<Longrightarrow> SharedPtr_move s h other = Inr s' \<Longrightarrow> reachable s'"
| r_move_conv: "reachable s \<Longrightarrow> vars s h = None \<Longrightarrow>
           SharedPtr_move_conv s h T other = Inr s' \<Longrightarrow> reachable s'"
| r_alias: "reachable s \<Longrightarrow> vars s h = None \<Longrightarrow> counts_below_max s \<Longrightarrow>
           SharedPtr_alias s h T other p = Inr s' \<Longrightarrow> reachable s'"
| r_assign_copy: "reachable s \<Longrightarrow> counts_below_max s \<Longrightarrow>
           assign_copy s h other = Inr s' \<Longrightarrow> reachable s'"
| r_assign_move: "reachable s \<Longrightarrow> assign_move s h other = Inr s' \<Longrightarrow> reachable s'"
| r_dtor: "reachable s \<Longrightarrow> SharedPtr_dtor s h = Inr s' \<Longrightarrow> reachable s'"
| r_Reset: "reachable s \<Longrightarrow> Reset s h = Inr s' \<Longrightarrow> reachable s'"
| r_Reset_ptr: "reachable s \<Longrightarrow> Reset_ptr s h Y p = Inr s' \<Longrightarrow> reachable s'"
| r_Swap: "reachable s \<Longrightarrow> vars s tmp = None \<Longrightarrow> tmp \<noteq> h \<Longrightarrow> tmp \<noteq> other \<Longrightarrow>
           Swap s h other tmp = Inr s' \<Longrightarrow> reachable s'"
| r_MakeShared: "reachable s \<Longrightarrow> vars s h = None \<Longrightarrow>
           MakeShared s h Y (ctor :: 'v list \<Rightarrow> 'v list) args = Inr s' \<Longrightarrow> reachable s'"

text \<open>
  The invariant of the reachable states that the observers rely on: a handle without
  a block has null data, and no live block has count 0.
\<close>

definition vars_ok :: "('ty, 'v) state \<Rightarrow> bool" where
  "vars_ok st = (\<forall>h x. vars st h = Some x \<longrightarrow> control_block x = None \<longrightarrow> data x = None)"

definition blocks_ok :: "('ty, 'v) state \<Rightarrow> bool" where
  "blocks_ok st = (\<forall>b blk. blocks st b = Some blk \<longrightarrow> ref_cnt blk \<noteq> 0)"

definition handles_ok :: "('ty, 'v) state \<Rightarrow> bool" where
  "handles_ok st = (vars_ok st \<and> blocks_ok st)"

subsection \<open>Example stores\<close>

text \<open>
  The store after \<open>SharedPtr<Data> sp(new Data{42, 7})\<close> from the empty store: the object
  at address 0, its block at address 1, the handle in variable 0.
\<close>

definition owner_state :: "(string, int) state" where
  "owner_state =
     \<lparr>vars = [0 \<mapsto> \<lparr>data = Some (0, 0), control_block = Some 1, elem_type = ''Data''\<rparr>],
      blocks = [1 \<mapsto> ControlBlockPtr 1 ''Data'' (Some (0, 0))],
      objects = [0 \<mapsto> [42, 7]],
      next_addr = 2,
      trace = [Alloc 0, Alloc 1],
      layout = (\<lambda>Y T. 0)\<rparr>"

text \<open>The same store after \<open>SharedPtr<Data> sq(sp)\<close> into variable 1.\<close>

definition shared_state :: "(string, int) state" where
  "shared_state =
     \<lparr>vars = [0 \<mapsto> \<lparr>data = Some (0, 0), control_block = Some 1, elem_type = ''Data''\<rparr>,
              1 \<mapsto> \<lparr>data = Some (0, 0), control_block = Some 1, elem_type = ''Data''\<rparr>],
      blocks = [1 \<mapsto> ControlBlockPtr 2 ''Data'' (Some (0, 0))],
      objects = [0 \<mapsto> [42, 7]],
      next_addr = 2,
      trace = [Alloc 0, Alloc 1, Inc 1],
      layout = (\<lambda>Y T. 0)\<rparr>"


text \<open>
  Two owners: after \<open>SharedPtr<Data> p1(new Data{42, 7}); SharedPtr<Data> p2(new Data{1, 2});\<close>
  with the handles in variables 0 and 1, and the same store after \<open>p1.Swap(p2)\<close>, whose
  local \<open>tmp\<close> was variable 2.
\<close>

definition two_owners_state :: "(string, int) state" where
  "two_owners_state =
     \<lparr>vars = [0 \<mapsto> \<lparr>data = Some (0, 0), control_block = Some 1, elem_type = ''Data''\<rparr>,
              1 \<mapsto> \<lparr>data = Some (2, 0), control_block = Some 3, elem_type = ''Data''\<rparr>],
      blocks = [1 \<mapsto> ControlBlockPtr 1 ''Data'' (Some (0, 0)),
                3 \<mapsto> ControlBlockPtr 1 ''Data'' (Some (2, 0))],
      objects = [0 \<mapsto> [42, 7], 2 \<mapsto> [1, 2]],
      next_addr = 4,
      trace = [Alloc 0, Alloc 1, Alloc 2, Alloc 3],
      layout = (\<lambda>Y T. 0)\<rparr>"

definition swapped_state :: "(string, int) state" where
  "swapped_state =
     \<lparr>vars = [0 \<mapsto> \<lparr>data = Some (2, 0), control_block = Some 3, elem_type = ''Data''\<rparr>,
              1 \<mapsto> \<lparr>data = Some (0, 0), control_block = Some 1, elem_type = ''Data''\<rparr>],
      blocks = [1 \<mapsto> ControlBlockPtr 1 ''Data'' (Some (0, 0)),
                3 \<mapsto> ControlBlockPtr 1 ''Data'' (Some (2, 0))],
      objects = [0 \<mapsto> [42, 7], 2 \<mapsto> [1, 2]],
      next_addr = 4,
      trace = [Alloc 0, Alloc 1, Alloc 2, Alloc 3,
               Inc 1, Dec 1, Inc 3, Dec 3, Inc 1, Dec 1],
      layout = (\<lambda>Y T. 0)\<rparr>"

text \<open>The store after \<open>SharedPtr<int> p(static_cast<int*>(nullptr))\<close> from the empty store.\<close>

definition null_adopted_state :: "(string, int) state" where
  "null_adopted_state =
     \<lparr>vars = [0 \<mapsto> \<lparr>data = None, control_block = Some 0, elem_type = ''int''\<rparr>],
      blocks = [0 \<mapsto> ControlBlockPtr 1 ''int'' None],
      objects = Map.empty,
      next_addr = 1,
      trace = [Alloc 0],
      layout = (\<lambda>Y T. 0)\<rparr>"

text \<open>The store after \<open>new Derived\<close> in the caller, from the empty store.\<close>

definition lone_object_state :: "(string, int) state" where
  "lone_object_state =
     \<lparr>vars = Map.empty, blocks = Map.empty, objects = [0 \<mapsto> [5]],
      next_addr = 1, trace = [Alloc 0],
      layout = (\<lambda>Y T. 0)\<rparr>"

text \<open>
  A payload with two bases: \<open>struct Data : First, Second\<close>, whose \<open>Second\<close> part is the
  sub-object of index 1. The store of the sole owner under that layout.
\<close>

definition two_bases :: "string \<Rightarrow> string \<Rightarrow> nat" where
  "two_bases Y T = (if Y = ''Data'' \<and> T = ''Second'' then 1 else 0)"

definition two_bases_owner_state :: "(string, int) state" where
  "two_bases_owner_state = owner_state\<lparr>layout := two_bases\<rparr>"

section \<open>Basic facts\<close>

lemma convert_pointer_None [simp]: "convert_pointer st Y T None = None"
  by (simp add: convert_pointer_def)

lemma convert_pointer_same [simp]: "convert_pointer st T T p = p"
  by (simp add: convert_pointer_def split: option.splits)

lemma convert_pointer_Some:
  "Y \<noteq> T \<Longrightarrow> convert_pointer st Y T (Some (a, i)) = Some (a, i + layout st Y T)"
  by (simp add: convert_pointer_def)

lemma operator_bool_eq: "vars s h = Some x \<Longrightarrow> operator_bool s h = Inr (data x \<noteq> None)"
  by (simp add: operator_bool_def get_handle_def and_then_def)

lemma convert_pointer_eq_None [simp]: "convert_pointer st Y T p = None \<longleftrightarrow> p = None"
  by (simp add: convert_pointer_def split: option.splits)

lemma and_then_Inr [simp]: "and_then (Inr x) f = f x"
  by (simp add: and_then_def)

lemma and_then_Inl [simp]: "and_then (Inl e) f = Inl e"
  by (simp add: and_then_def)

lemma and_then_eq_Inr:
  "and_then r f = Inr y \<longleftrightarrow> (\<exists>x. r = Inr x \<and> f x = Inr y)"
  by (cases r) simp_all

lemma get_handle_Some [simp]: "vars st h = Some x \<Longrightarrow> get_handle st h = Inr x"
  by (simp add: get_handle_def)

lemma get_handle_None [simp]: "vars st h = None \<Longrightarrow> get_handle st h = Inl NoSuchHandle"
  by (simp add: get_handle_def)

lemma get_handle_eq_Inr: "get_handle st h = Inr x \<longleftrightarrow> vars st h = Some x"
  by (simp add: get_handle_def split: option.splits)

lemma SharedPtr_eta [simp]:
  "\<lparr>data = data x, control_block = control_block x, elem_type = elem_type x\<rparr> = x"
  by (cases x) simp

lemma set_handle_cleared:
  assumes "vars s h = Some x" "data x = None" "control_block x = None"
  shows "set_handle s h (x\<lparr>data := None, control_block := None\<rparr>) = s"
proof -
  have "x\<lparr>data := None, control_block := None\<rparr> = x"
    using assms(2,3) by (cases x) simp
  moreover have "(vars s)(h \<mapsto> x) = vars s"
    using assms(1) by (rule map_upd_triv)
  ultimately show ?thesis by (simp add: set_handle_def)
qed

lemma set_ref_cnt_simps [simp]:
  "ref_cnt (set_ref_cnt c blk) = c"
  "set_ref_cnt c (set_ref_cnt c' blk) = set_ref_cnt c blk"
  "set_ref_cnt (ref_cnt blk) blk = blk"
  by (cases blk; simp)+

lemma set_ref_cnt_same: "ref_cnt blk = c \<Longrightarrow> set_ref_cnt c blk = blk"
  by (cases blk) auto

lemma destruction_set_ref_cnt [simp]: "destruction b (set_ref_cnt c blk) = destruction b blk"
  by (induction b blk rule: destruction.induct) simp_all

lemma owned_object_set_ref_cnt [simp]: "owned_object (set_ref_cnt c blk) = owned_object blk"
  by (induction blk rule: owned_object.induct) simp_all

lemma deletable_set_ref_cnt [simp]: "deletable st (set_ref_cnt c blk) = deletable st blk"
  by (induction st blk rule: deletable.induct) simp_all

lemma of_nat_eq_1_iff:
  assumes "n < 2 ^ 64"
  shows "(of_nat n = (1::64 word)) \<longleftrightarrow> n = 1"
proof -
  have "(of_nat n = (of_nat 1 :: 64 word)) \<longleftrightarrow> take_bit 64 n = take_bit 64 (1::nat)"
    using word_of_nat_eq_iff [where 'a = 64, of n 1] by simp
  moreover have "take_bit 64 n = n"
    using assms by (simp add: take_bit_nat_eq_self)
  ultimately show ?thesis by simp
qed

lemma unat_increment: "c \<noteq> - 1 \<Longrightarrow> unat (c + 1) = unat c + 1" for c :: "64 word"
proof -
  assume "c \<noteq> - 1"
  then have "1 + c \<noteq> 0" by (metis add.commute add_eq_0_iff)
  then have "unat (1 + c) = Suc (unat c)" by (rule unatSuc)
  then show ?thesis by (simp add: add.commute)
qed

lemma word_succ_eq_1 [simp]: "(c + 1 = 1) \<longleftrightarrow> c = 0" for c :: "64 word"
  by simp

lemma word_pred_eq_0 [simp]: "(c - 1 = 0) \<longleftrightarrow> c = 1" for c :: "64 word"
  by simp

lemma word_succ_eq_0: "(c + 1 = 0) \<longleftrightarrow> c = - 1" for c :: "64 word"
  by (metis add.commute add_eq_0_iff)

lemma increment_live:
  "blocks s b = Some blk \<Longrightarrow>
   increment s b = Inr (s\<lparr>blocks := (blocks s)(b \<mapsto> set_ref_cnt (ref_cnt blk + 1) blk),
                         trace := trace s @ [Inc b]\<rparr>)"
  by (simp add: increment_def)

lemma owner_state_built:
  "(case new_object init_state [42, 7] of
      (a, s) \<Rightarrow> SharedPtr_ptr s 0 ''Data'' ''Data'' (Some (a, 0))) = Inr owner_state"
  by (simp add: new_object_def init_state_def SharedPtr_ptr_def new_block_def set_handle_def
      owner_state_def)

lemma lone_object_state_built: "new_object init_state [5] = (0, lone_object_state)"
  by (simp add: new_object_def init_state_def lone_object_state_def)

lemma shared_state_built: "SharedPtr_copy owner_state 1 0 = Inr shared_state"
  by (simp add: SharedPtr_copy_def owner_state_def shared_state_def set_handle_def acquire_def
      increment_def fun_upd_twist)

section \<open>Releasing a reference\<close>

lemma release_None [simp]: "release s None = Inr s"
  by (simp add: release_def)

lemma release_last:
  assumes "blocks s b = Some blk" "ref_cnt blk = 1" "deletable s blk"
  shows "\<exists>s'. release s (Some b) = Inr s' \<and> vars s' = vars s \<and>
           blocks s' = (blocks s)(b := None) \<and>
           objects s' = (case owned_object blk of None \<Rightarrow> objects s
                         | Some a \<Rightarrow> (objects s)(a := None)) \<and>
           next_addr s' = next_addr s \<and>
           trace s' = trace s @ destruction b blk"
  using assms
  by (induction s blk rule: deletable.induct) (auto simp: release_def delete_block_def)

lemma release_shared:
  assumes "blocks s b = Some blk" "ref_cnt blk \<noteq> 1"
  shows "release s (Some b) =
           Inr (s\<lparr>blocks := (blocks s)(b \<mapsto> set_ref_cnt (ref_cnt blk - 1) blk),
                  trace := trace s @ [Dec b]\<rparr>)"
  using assms by (simp add: release_def)

lemma run_release_shared:
  assumes "vars s (handle_of a) = Some x" "control_block x = Some b"
    "blocks s b = Some blk" "ref_cnt blk \<noteq> 1"
  shows "\<exists>s'. run_release s a = Inr s' \<and>
           blocks s' = (blocks s)(b \<mapsto> set_ref_cnt (ref_cnt blk - 1) blk) \<and>
           objects s' = objects s \<and> trace s' = trace s @ [Dec b] \<and>
           (\<forall>h. h \<noteq> handle_of a \<longrightarrow> vars s' h = vars s h)"
  using assms
  by (cases a) (simp_all add: SharedPtr_dtor_def Reset_def release_shared set_handle_def)

lemma run_release_last:
  assumes "vars s (handle_of a) = Some x" "control_block x = Some b"
    "blocks s b = Some blk" "ref_cnt blk = 1" "deletable s blk"
  shows "\<exists>s'. run_release s a = Inr s' \<and>
           blocks s' = (blocks s)(b := None) \<and>
           objects s' = (case owned_object blk of None \<Rightarrow> objects s
                         | Some a \<Rightarrow> (objects s)(a := None)) \<and>
           trace s' = trace s @ destruction b blk \<and>
           (\<forall>h. h \<noteq> handle_of a \<longrightarrow> vars s' h = vars s h)"
proof -
  from release_last [OF assms(3,4,5)] obtain s1 where
    s1: "release s (Some b) = Inr s1" "vars s1 = vars s" "blocks s1 = (blocks s)(b := None)"
      "objects s1 = (case owned_object blk of None \<Rightarrow> objects s
                         | Some a \<Rightarrow> (objects s)(a := None))"
      "trace s1 = trace s @ destruction b blk"
    by blast
  show ?thesis
    using assms(1,2) s1
    by (cases a) (simp_all add: SharedPtr_dtor_def Reset_def set_handle_def)
qed

text \<open>
  The induction behind the life of a block: as many handles as the count says, released
  one after the other.
\<close>

lemma release_all_siblings:
  assumes "distinct (map handle_of acts)" "acts \<noteq> []" "length acts < 2 ^ 64"
    "\<forall>a\<in>set acts. \<exists>x. vars s (handle_of a) = Some x \<and> control_block x = Some b"
    "blocks s b = Some blk" "ref_cnt blk = of_nat (length acts)" "deletable s blk"
  shows "(\<forall>k<length acts. \<exists>s'. release_all s (take k acts) = Inr s' \<and>
            blocks s' = (blocks s)(b \<mapsto> set_ref_cnt (of_nat (length acts - k)) blk) \<and>
            objects s' = objects s \<and>
            trace s' = trace s @ replicate k (Dec b) \<and>
            (\<forall>h. h \<notin> handle_of ` set (take k acts) \<longrightarrow> vars s' h = vars s h)) \<and>
         (\<exists>s'. release_all s acts = Inr s' \<and> blocks s' b = None \<and>
            objects s' = (case owned_object blk of None \<Rightarrow> objects s
                          | Some a \<Rightarrow> (objects s)(a := None)) \<and>
            trace s' = trace s @ replicate (length acts - 1) (Dec b) @ destruction b blk)"
  using assms
proof (induction acts arbitrary: s blk)
  case Nil
  then show ?case by simp
next
  case (Cons a acts)
  from Cons.prems(4) obtain x where x: "vars s (handle_of a) = Some x" "control_block x = Some b"
    by auto
  show ?case
  proof (cases "acts = []")
    case True
    with Cons.prems have one: "ref_cnt blk = 1" by simp
    from run_release_last [OF x Cons.prems(5) one Cons.prems(7)] obtain s1 where
      "run_release s a = Inr s1" "blocks s1 = (blocks s)(b := None)"
      "objects s1 = (case owned_object blk of None \<Rightarrow> objects s
                         | Some a \<Rightarrow> (objects s)(a := None))"
      "trace s1 = trace s @ destruction b blk"
      by blast
    with True Cons.prems(5) one show ?thesis
      by (simp add: set_ref_cnt_same map_upd_triv)
  next
    case False
    let ?n = "length (a # acts)"
    have n: "?n < 2 ^ 64" "?n \<noteq> 1" using Cons.prems(3) False by auto
    then have ne1: "ref_cnt blk \<noteq> 1"
      using Cons.prems(6) of_nat_eq_1_iff [of ?n] by simp
    from run_release_shared [OF x Cons.prems(5) ne1] obtain s1 where
      s1: "run_release s a = Inr s1"
        "blocks s1 = (blocks s)(b \<mapsto> set_ref_cnt (ref_cnt blk - 1) blk)"
        "objects s1 = objects s" "trace s1 = trace s @ [Dec b]"
        "\<forall>h. h \<noteq> handle_of a \<longrightarrow> vars s1 h = vars s h"
      by blast
    let ?blk = "set_ref_cnt (ref_cnt blk - 1) blk"
    have cnt: "ref_cnt ?blk = of_nat (length acts)"
      using Cons.prems(6) by simp
    have hs: "\<forall>a'\<in>set acts. \<exists>x. vars s1 (handle_of a') = Some x \<and> control_block x = Some b"
    proof
      fix a' assume a': "a' \<in> set acts"
      have "handle_of a \<notin> handle_of ` set acts" using Cons.prems(1) by simp
      with a' have "handle_of a' \<noteq> handle_of a" by (metis imageI)
      with s1(5) have "vars s1 (handle_of a') = vars s (handle_of a')" by simp
      with Cons.prems(4) a' show "\<exists>x. vars s1 (handle_of a') = Some x \<and> control_block x = Some b"
        by simp
    qed
    have del: "deletable s1 ?blk"
      using Cons.prems(7) s1(3) by (cases blk rule: owned_object.cases) simp_all
    have IH: "(\<forall>k<length acts. \<exists>s'. release_all s1 (take k acts) = Inr s' \<and>
            blocks s' = (blocks s1)(b \<mapsto> set_ref_cnt (of_nat (length acts - k)) ?blk) \<and>
            objects s' = objects s1 \<and>
            trace s' = trace s1 @ replicate k (Dec b) \<and>
            (\<forall>h. h \<notin> handle_of ` set (take k acts) \<longrightarrow> vars s' h = vars s1 h)) \<and>
         (\<exists>s'. release_all s1 acts = Inr s' \<and> blocks s' b = None \<and>
            objects s' = (case owned_object ?blk of None \<Rightarrow> objects s1
                          | Some a \<Rightarrow> (objects s1)(a := None)) \<and>
            trace s' = trace s1 @ replicate (length acts - 1) (Dec b) @ destruction b ?blk)"
    proof (rule Cons.IH [OF _ False _ hs _ cnt del])
      show "distinct (map handle_of acts)" using Cons.prems(1) by simp
      show "length acts < 2 ^ 64" using Cons.prems(3) by simp
      show "blocks s1 b = Some ?blk" using s1(2) by simp
    qed
    have part1: "\<exists>s'. release_all s (take k (a # acts)) = Inr s' \<and>
            blocks s' = (blocks s)(b \<mapsto> set_ref_cnt (of_nat (length (a # acts) - k)) blk) \<and>
            objects s' = objects s \<and>
            trace s' = trace s @ replicate k (Dec b) \<and>
            (\<forall>h. h \<notin> handle_of ` set (take k (a # acts)) \<longrightarrow> vars s' h = vars s h)"
      if k: "k < length (a # acts)" for k
    proof (cases k)
      case 0
      then show ?thesis using Cons.prems(5,6) by (simp add: set_ref_cnt_same map_upd_triv)
    next
      case (Suc k')
      with k have "k' < length acts" by simp
      with IH obtain s' where "release_all s1 (take k' acts) = Inr s'"
        "blocks s' = (blocks s1)(b \<mapsto> set_ref_cnt (of_nat (length acts - k')) ?blk)"
        "objects s' = objects s1" "trace s' = trace s1 @ replicate k' (Dec b)"
        "\<forall>h. h \<notin> handle_of ` set (take k' acts) \<longrightarrow> vars s' h = vars s1 h"
        by blast
      with Suc s1 show ?thesis by (simp add: replicate_append_same)
    qed
    from IH obtain s' where "release_all s1 acts = Inr s'" "blocks s' b = None"
      "objects s' = (case owned_object ?blk of None \<Rightarrow> objects s1
                          | Some a \<Rightarrow> (objects s1)(a := None))"
      "trace s' = trace s1 @ replicate (length acts - 1) (Dec b) @ destruction b ?blk"
      by blast
    with s1 False have part2: "\<exists>s'. release_all s (a # acts) = Inr s' \<and> blocks s' b = None \<and>
            objects s' = (case owned_object blk of None \<Rightarrow> objects s
                          | Some a \<Rightarrow> (objects s)(a := None)) \<and>
            trace s' = trace s @ replicate (length (a # acts) - 1) (Dec b) @ destruction b blk"
      by (cases acts) (simp_all add: replicate_append_same split: option.splits)
    from part1 part2 show ?thesis by blast
  qed
qed

section \<open>Assignment to itself\<close>

lemma Reset_result_empty:
  assumes "Reset s h = Inr s1"
  shows "\<exists>x. vars s1 h = Some x \<and> data x = None \<and> control_block x = None"
  using assms by (auto simp: Reset_def and_then_eq_Inr get_handle_eq_Inr set_handle_def)

lemma assign_copy_self: "assign_copy s h h = Reset s h"
proof (cases "Reset s h")
  case (Inl e)
  then show ?thesis by (simp add: assign_copy_def)
next
  case (Inr s1)
  from Reset_result_empty [OF Inr] obtain x where
    x: "vars s1 h = Some x" "data x = None" "control_block x = None"
    by blast
  then have "set_handle s1 h (x\<lparr>data := None, control_block := None\<rparr>) = s1"
    by (rule set_handle_cleared)
  with x show ?thesis
    using Inr by (simp add: assign_copy_def acquire_def)
qed

lemma assign_move_self: "assign_move s h h = Reset s h"
proof (cases "Reset s h")
  case (Inl e)
  then show ?thesis by (simp add: assign_move_def)
next
  case (Inr s1)
  from Reset_result_empty [OF Inr] obtain x where
    x: "vars s1 h = Some x" "data x = None" "control_block x = None"
    by blast
  then have "set_handle s1 h (x\<lparr>data := None, control_block := None\<rparr>) = s1"
    by (rule set_handle_cleared)
  with x show ?thesis
    using Inr by (simp add: assign_move_def)
qed

section \<open>Reading through a data pointer\<close>

lemma load_count_change:
  assumes "objects s1 = objects s" "blocks s1 = (blocks s)(b \<mapsto> set_ref_cnt c blk)"
    "blocks s b = Some blk"
  shows "load s1 p = load s p"
proof (cases p)
  case None
  then show ?thesis by (simp add: load_def)
next
  case (Some q)
  obtain a i where q: "q = (a, i)" by (cases q)
  show ?thesis
  proof (cases "a = b")
    case True
    with assms Some q show ?thesis
      by (cases blk) (simp_all add: load_def split: option.splits)
  next
    case False
    with assms Some q show ?thesis
      by (simp add: load_def split: option.splits)
  qed
qed

section \<open>Swap\<close>

lemmas Swap_defs = Swap_def SharedPtr_copy_def assign_copy_def Reset_def release_def
  acquire_def increment_def SharedPtr_dtor_def set_handle_def

lemma Swap_result_distinct:
  assumes "vars s a = Some ha" "vars s b = Some hb" "tmp \<noteq> a" "tmp \<noteq> b" "a \<noteq> b"
    "\<forall>p. control_block ha = Some p \<or> control_block hb = Some p \<longrightarrow>
       (\<exists>blk. blocks s p = Some blk \<and> ref_cnt blk \<noteq> 0)"
  shows "\<exists>s'. Swap s a b tmp = Inr s' \<and>
           vars s' a = Some (ha\<lparr>data := data hb, control_block := control_block hb\<rparr>) \<and>
           vars s' b = Some (hb\<lparr>data := data ha, control_block := control_block ha\<rparr>) \<and>
           vars s' tmp = None \<and>
           (\<forall>h. h \<noteq> a \<and> h \<noteq> b \<and> h \<noteq> tmp \<longrightarrow> vars s' h = vars s h) \<and>
           (\<forall>p. blocks s' p = blocks s p) \<and> objects s' = objects s \<and>
           next_addr s' = next_addr s \<and>
           (\<exists>evs. trace s' = trace s @ evs \<and> (\<forall>e\<in>set evs. \<exists>p. e = Inc p \<or> e = Dec p))"
proof (cases "control_block ha")
  case None
  note A = None
  show ?thesis
  proof (cases "control_block hb")
    case None
    with A assms show ?thesis
      by (simp add: Swap_defs)
  next
    case (Some q)
    with assms(6) obtain blk where "blocks s q = Some blk" "ref_cnt blk \<noteq> 0" by auto
    with Some A assms(1-5) show ?thesis
      by (simp add: Swap_defs)
  qed
next
  case (Some p)
  note A = Some
  from assms(6) A obtain blk where blk: "blocks s p = Some blk" "ref_cnt blk \<noteq> 0" by auto
  show ?thesis
  proof (cases "control_block hb")
    case None
    with A blk assms(1-5) show ?thesis
      by (simp add: Swap_defs)
  next
    case (Some q)
    with assms(6) obtain blk' where blk': "blocks s q = Some blk'" "ref_cnt blk' \<noteq> 0" by auto
    show ?thesis
    proof (cases "p = q")
      case True
      with Some A blk assms(1-5) show ?thesis
        by (simp add: Swap_defs)
    next
      case False
      with Some A blk blk' assms(1-5) show ?thesis
        by (simp add: Swap_defs)
    qed
  qed
qed

lemma Swap_result_self:
  assumes "vars s a = Some ha" "tmp \<noteq> a"
    "\<forall>p. control_block ha = Some p \<longrightarrow> (\<exists>blk. blocks s p = Some blk \<and> ref_cnt blk \<noteq> 0)"
  shows "\<exists>s'. Swap s a a tmp = Inr s' \<and>
           vars s' a = Some ha \<and>
           vars s' tmp = None \<and>
           (\<forall>h. h \<noteq> a \<and> h \<noteq> tmp \<longrightarrow> vars s' h = vars s h) \<and>
           (\<forall>p. blocks s' p = blocks s p) \<and> objects s' = objects s \<and>
           next_addr s' = next_addr s \<and>
           (\<exists>evs. trace s' = trace s @ evs \<and> (\<forall>e\<in>set evs. \<exists>p. e = Inc p \<or> e = Dec p))"
proof (cases "control_block ha")
  case None
  with assms show ?thesis
    by (cases ha) (simp add: Swap_defs)
next
  case (Some p)
  with assms(3) obtain blk where "blocks s p = Some blk" "ref_cnt blk \<noteq> 0" by auto
  with Some assms(1,2) show ?thesis
    by (cases ha) (simp add: Swap_defs)
qed

lemma Swap_result:
  assumes "vars s a = Some ha" "vars s b = Some hb" "tmp \<noteq> a" "tmp \<noteq> b"
    "\<forall>p. control_block ha = Some p \<or> control_block hb = Some p \<longrightarrow>
       (\<exists>blk. blocks s p = Some blk \<and> ref_cnt blk \<noteq> 0)"
  shows "\<exists>s'. Swap s a b tmp = Inr s' \<and>
           vars s' a = Some (ha\<lparr>data := data hb, control_block := control_block hb\<rparr>) \<and>
           vars s' b = Some (hb\<lparr>data := data ha, control_block := control_block ha\<rparr>) \<and>
           vars s' tmp = None \<and>
           (\<forall>h. h \<noteq> a \<and> h \<noteq> b \<and> h \<noteq> tmp \<longrightarrow> vars s' h = vars s h) \<and>
           blocks s' = blocks s \<and> objects s' = objects s \<and>
           next_addr s' = next_addr s \<and>
           (\<exists>evs. trace s' = trace s @ evs \<and> (\<forall>e\<in>set evs. \<exists>p. e = Inc p \<or> e = Dec p))"
proof (cases "a = b")
  case True
  with assms have same: "hb = ha" by simp
  have "ha\<lparr>data := data ha, control_block := control_block ha\<rparr> = ha" by simp
  with Swap_result_self [OF assms(1,3)] assms(5) True same show ?thesis
    by (auto intro!: ext)
next
  case False
  from Swap_result_distinct [OF assms(1-4) False assms(5)] show ?thesis
    by (auto intro!: ext)
qed

section \<open>The invariant of the reachable states\<close>

lemma vars_okD: "vars_ok s \<Longrightarrow> vars s h = Some x \<Longrightarrow> control_block x = None \<Longrightarrow> data x = None"
  by (auto simp: vars_ok_def)

lemma handles_okD:
  "handles_ok s \<Longrightarrow> vars s h = Some x \<Longrightarrow> control_block x = None \<longrightarrow> data x = None"
  by (auto simp: handles_ok_def dest: vars_okD)

lemma set_handle_ok:
  "handles_ok s \<Longrightarrow> (control_block x = None \<longrightarrow> data x = None) \<Longrightarrow>
   handles_ok (set_handle s h x)"
  by (simp add: handles_ok_def vars_ok_def blocks_ok_def set_handle_def)

lemma counts_below_max_set_handle [simp]:
  "counts_below_max (set_handle s h x) = counts_below_max s"
  by (simp add: counts_below_max_def set_handle_def)

lemma release_ok:
  assumes "release s cb = Inr s'" "handles_ok s"
  shows "handles_ok s' \<and> vars s' = vars s \<and> (counts_below_max s \<longrightarrow> counts_below_max s')"
  using assms
  by (auto simp: release_def delete_block_def handles_ok_def vars_ok_def blocks_ok_def
      counts_below_max_def
      split: option.splits if_splits ControlBlockBase.splits prod.splits)

lemma increment_ok:
  assumes "increment s b = Inr s'" "handles_ok s" "counts_below_max s"
  shows "handles_ok s'"
  using assms
  by (auto simp: increment_def handles_ok_def vars_ok_def blocks_ok_def counts_below_max_def
      word_succ_eq_0 split: option.splits if_splits)

lemma acquire_ok:
  assumes "acquire s cb = Inr s'" "handles_ok s" "counts_below_max s"
  shows "handles_ok s'"
  using assms increment_ok [of s _ s'] by (cases cb) (auto simp: acquire_def)

lemma new_block_ok:
  assumes "new_block s blk = (b, s')" "handles_ok s" "ref_cnt blk \<noteq> 0"
  shows "handles_ok s' \<and> vars s' = vars s"
  using assms
  by (auto simp: new_block_def handles_ok_def vars_ok_def blocks_ok_def split: if_splits)

lemma handles_ok_new_object:
  "new_object s fs = (a, s') \<Longrightarrow> handles_ok s \<Longrightarrow> handles_ok s'"
  by (auto simp: new_object_def handles_ok_def vars_ok_def blocks_ok_def)

lemma handles_ok_default:
  "SharedPtr_default s h T = Inr s' \<Longrightarrow> handles_ok s \<Longrightarrow> handles_ok s'"
  by (auto simp: SharedPtr_default_def intro: set_handle_ok)

lemma handles_ok_nullptr:
  "SharedPtr_nullptr s h T = Inr s' \<Longrightarrow> handles_ok s \<Longrightarrow> handles_ok s'"
  by (auto simp: SharedPtr_nullptr_def intro: set_handle_ok)

lemma handles_ok_ptr:
  assumes "SharedPtr_ptr s h T Y p = Inr s'" "handles_ok s"
  shows "handles_ok s'"
proof -
  obtain b s1 where nb: "new_block s (ControlBlockPtr 1 Y p) = (b, s1)"
    by (cases "new_block s (ControlBlockPtr 1 Y p)")
  with assms(1) have s': "s' = set_handle s1 h
      \<lparr>data = convert_pointer s Y T p, control_block = Some b, elem_type = T\<rparr>"
    by (auto simp: SharedPtr_ptr_def)
  from new_block_ok [OF nb assms(2)] have "handles_ok s1" by simp
  then show ?thesis unfolding s' by (rule set_handle_ok) simp
qed

lemma handles_ok_acquire_set:
  assumes "acquire (set_handle s h x) cb = Inr s'" "handles_ok s" "counts_below_max s"
    "control_block x = None \<longrightarrow> data x = None"
  shows "handles_ok s'"
proof -
  have "handles_ok (set_handle s h x)" using assms(2,4) by (rule set_handle_ok)
  moreover have "counts_below_max (set_handle s h x)" using assms(3) by simp
  ultimately show ?thesis using assms(1) by (blast intro: acquire_ok)
qed

lemma handles_ok_copy:
  assumes "SharedPtr_copy s h other = Inr s'" "handles_ok s" "counts_below_max s"
  shows "handles_ok s'"
proof -
  from assms(1) obtain oth where oth: "vars s other = Some oth"
    and acq: "acquire (set_handle s h \<lparr>data = data oth, control_block = control_block oth,
                 elem_type = elem_type oth\<rparr>) (control_block oth) = Inr s'"
    unfolding SharedPtr_copy_def and_then_eq_Inr get_handle_eq_Inr by blast
  from handles_okD [OF assms(2) oth] show ?thesis
    by (intro handles_ok_acquire_set [OF acq assms(2,3)]) simp
qed

lemma handles_ok_copy_conv:
  assumes "SharedPtr_copy_conv s h T other = Inr s'" "handles_ok s" "counts_below_max s"
  shows "handles_ok s'"
proof -
  from assms(1) obtain oth where oth: "vars s other = Some oth"
    and acq: "acquire (set_handle s h
                 \<lparr>data = convert_pointer s (elem_type oth) T (data oth),
                  control_block = control_block oth, elem_type = T\<rparr>)
               (control_block oth) = Inr s'"
    unfolding SharedPtr_copy_conv_def and_then_eq_Inr get_handle_eq_Inr by blast
  from handles_okD [OF assms(2) oth] show ?thesis
    by (intro handles_ok_acquire_set [OF acq assms(2,3)]) simp
qed

lemma handles_ok_move:
  assumes "SharedPtr_move s h other = Inr s'" "handles_ok s"
  shows "handles_ok s'"
proof -
  from assms(1) obtain oth where oth: "vars s other = Some oth"
    and s': "Inr (set_handle (set_handle s h \<lparr>data = data oth,
                 control_block = control_block oth, elem_type = elem_type oth\<rparr>)
               other (oth\<lparr>data := None, control_block := None\<rparr>)) = Inr s'"
    unfolding SharedPtr_move_def and_then_eq_Inr get_handle_eq_Inr by blast
  have "handles_ok (set_handle s h \<lparr>data = data oth,
                 control_block = control_block oth, elem_type = elem_type oth\<rparr>)"
    using assms(2) handles_okD [OF assms(2) oth] by (intro set_handle_ok) simp_all
  then have "handles_ok (set_handle (set_handle s h \<lparr>data = data oth,
                 control_block = control_block oth, elem_type = elem_type oth\<rparr>)
               other (oth\<lparr>data := None, control_block := None\<rparr>))"
    by (rule set_handle_ok) simp
  with s' show ?thesis by simp
qed

lemma handles_ok_move_conv:
  assumes "SharedPtr_move_conv s h T other = Inr s'" "handles_ok s"
  shows "handles_ok s'"
proof -
  from assms(1) obtain oth where oth: "vars s other = Some oth"
    and s': "Inr (set_handle (set_handle s h
                 \<lparr>data = convert_pointer s (elem_type oth) T (data oth),
                  control_block = control_block oth, elem_type = T\<rparr>)
               other (oth\<lparr>data := None, control_block := None\<rparr>)) = Inr s'"
    unfolding SharedPtr_move_conv_def and_then_eq_Inr get_handle_eq_Inr by blast
  have "handles_ok (set_handle s h
                 \<lparr>data = convert_pointer s (elem_type oth) T (data oth),
                  control_block = control_block oth, elem_type = T\<rparr>)"
    using assms(2) handles_okD [OF assms(2) oth] by (intro set_handle_ok) simp_all
  then have "handles_ok (set_handle (set_handle s h
                 \<lparr>data = convert_pointer s (elem_type oth) T (data oth),
                  control_block = control_block oth, elem_type = T\<rparr>)
               other (oth\<lparr>data := None, control_block := None\<rparr>))"
    by (rule set_handle_ok) simp
  with s' show ?thesis by simp
qed

lemma handles_ok_alias:
  assumes "SharedPtr_alias s h T other p = Inr s'" "handles_ok s" "counts_below_max s"
  shows "handles_ok s'"
proof -
  from assms(1) obtain oth where oth: "vars s other = Some oth"
    and c: "(case control_block oth of None \<Rightarrow> Inl NullDereference
            | Some b \<Rightarrow> increment (set_handle s h
                 \<lparr>data = p, control_block = Some b, elem_type = T\<rparr>) b) = Inr s'"
    unfolding SharedPtr_alias_def and_then_eq_Inr get_handle_eq_Inr by blast
  then obtain b where inc: "increment (set_handle s h
                 \<lparr>data = p, control_block = Some b, elem_type = T\<rparr>) b = Inr s'"
    by (cases "control_block oth") simp_all
  let ?s1 = "set_handle s h \<lparr>data = p, control_block = Some b, elem_type = T\<rparr>"
  have "handles_ok ?s1" using assms(2) by (rule set_handle_ok) simp
  moreover have "counts_below_max ?s1" using assms(3) by simp
  ultimately show ?thesis using inc by (blast intro: increment_ok)
qed

lemma handles_ok_dtor:
  assumes "SharedPtr_dtor s h = Inr s'" "handles_ok s"
  shows "handles_ok s'"
proof -
  from assms(1) obtain x s1 where "vars s h = Some x"
    and rel: "release s (control_block x) = Inr s1"
    and s': "Inr (s1\<lparr>vars := (vars s1)(h := None)\<rparr>) = Inr s'"
    unfolding SharedPtr_dtor_def and_then_eq_Inr get_handle_eq_Inr by blast
  from release_ok [OF rel assms(2)] have "handles_ok s1" by simp
  then have "handles_ok (s1\<lparr>vars := (vars s1)(h := None)\<rparr>)"
    by (simp add: handles_ok_def vars_ok_def blocks_ok_def)
  with s' show ?thesis by simp
qed

lemma Reset_ok:
  assumes "Reset s h = Inr s'" "handles_ok s"
  shows "handles_ok s' \<and> (counts_below_max s \<longrightarrow> counts_below_max s')"
proof -
  from assms(1) obtain x s1 where "vars s h = Some x"
    and rel: "release s (control_block x) = Inr s1"
    and s': "Inr (set_handle s1 h (x\<lparr>data := None, control_block := None\<rparr>)) = Inr s'"
    unfolding Reset_def and_then_eq_Inr get_handle_eq_Inr by blast
  from release_ok [OF rel assms(2)] have s1: "handles_ok s1"
    "counts_below_max s \<longrightarrow> counts_below_max s1"
    by simp_all
  from s1(1) have "handles_ok (set_handle s1 h (x\<lparr>data := None, control_block := None\<rparr>))"
    by (rule set_handle_ok) simp
  with s' s1(2) show ?thesis by auto
qed

lemma handles_ok_Reset_ptr:
  assumes "Reset_ptr s h Y p = Inr s'" "handles_ok s"
  shows "handles_ok s'"
proof (cases "vars s h")
  case None
  with assms(1) show ?thesis by (simp add: Reset_ptr_def)
next
  case (Some x)
  show ?thesis
  proof (cases "release s (control_block x)")
    case (Inl e)
    with Some assms(1) show ?thesis by (simp add: Reset_ptr_def)
  next
    case (Inr s1)
    obtain b s2 where nb: "new_block s1 (ControlBlockPtr 1 Y p) = (b, s2)"
      by (cases "new_block s1 (ControlBlockPtr 1 Y p)")
    with Some Inr assms(1)
    have s': "s' = set_handle s2 h
        (x\<lparr>data := convert_pointer s Y (elem_type x) p, control_block := Some b\<rparr>)"
      by (auto simp: Reset_ptr_def)
    from release_ok [OF Inr assms(2)] have "handles_ok s1" by simp
    with new_block_ok [OF nb] have "handles_ok s2" by simp
    then show ?thesis unfolding s' by (rule set_handle_ok) simp
  qed
qed

lemma handles_ok_assign_copy:
  assumes "assign_copy s h other = Inr s'" "handles_ok s" "counts_below_max s"
  shows "handles_ok s'"
proof -
  from assms(1) obtain s1 x oth where r: "Reset s h = Inr s1"
    and x: "vars s1 h = Some x" and oth: "vars s1 other = Some oth"
    and acq: "acquire (set_handle s1 h (x\<lparr>data := data oth, control_block := control_block oth\<rparr>))
                (control_block oth) = Inr s'"
    unfolding assign_copy_def and_then_eq_Inr get_handle_eq_Inr by blast
  from Reset_ok [OF r assms(2)] assms(3) have ok1: "handles_ok s1" "counts_below_max s1"
    by simp_all
  from handles_okD [OF ok1(1) oth] show ?thesis
    by (intro handles_ok_acquire_set [OF acq ok1]) simp
qed

lemma handles_ok_assign_move:
  assumes "assign_move s h other = Inr s'" "handles_ok s"
  shows "handles_ok s'"
proof -
  from assms(1) obtain s1 x oth oth2 where r: "Reset s h = Inr s1"
    and x: "vars s1 h = Some x" and oth: "vars s1 other = Some oth"
    and s': "Inr (set_handle (set_handle s1 h
                 (x\<lparr>data := data oth, control_block := control_block oth\<rparr>))
               other (oth2\<lparr>data := None, control_block := None\<rparr>)) = Inr s'"
    unfolding assign_move_def and_then_eq_Inr get_handle_eq_Inr Let_def by blast
  from Reset_ok [OF r assms(2)] have ok1: "handles_ok s1" by simp
  have "handles_ok (set_handle s1 h
                 (x\<lparr>data := data oth, control_block := control_block oth\<rparr>))"
    using ok1 handles_okD [OF ok1 oth] by (intro set_handle_ok) simp_all
  then have "handles_ok (set_handle (set_handle s1 h
                 (x\<lparr>data := data oth, control_block := control_block oth\<rparr>))
               other (oth2\<lparr>data := None, control_block := None\<rparr>))"
    by (rule set_handle_ok) simp
  with s' show ?thesis by simp
qed

lemma handles_ok_MakeShared:
  assumes "MakeShared s h Y ctor args = Inr s'" "handles_ok s"
  shows "handles_ok s'"
  using assms
  by (auto simp: MakeShared_def SharedPtr_default_def set_handle_def new_block_def
      handles_ok_def vars_ok_def blocks_ok_def split: if_splits)

lemma Swap_needs_live_handles:
  assumes "Swap s a b tmp = Inr s'" "tmp \<noteq> a" "tmp \<noteq> b" "blocks_ok s"
  shows "\<exists>ha hb. vars s a = Some ha \<and> vars s b = Some hb \<and>
           (\<forall>p. control_block ha = Some p \<or> control_block hb = Some p \<longrightarrow>
              (\<exists>blk. blocks s p = Some blk \<and> ref_cnt blk \<noteq> 0))"
proof (cases "vars s a")
  case None
  with assms(1) show ?thesis by (simp add: Swap_defs)
next
  case (Some ha)
  note ha = Some
  have live_a: "\<exists>blk. blocks s p = Some blk" if "control_block ha = Some p" for p
  proof (cases "blocks s p")
    case None
    with assms(1) ha that show ?thesis by (simp add: Swap_defs)
  next
    case (Some blk)
    then show ?thesis by simp
  qed
  have nz: "ref_cnt blk \<noteq> 0" if "blocks s p = Some blk" for p blk
    using assms(4) that by (auto simp: blocks_ok_def)
  show ?thesis
  proof (cases "vars s b")
    case None
    then have "a \<noteq> b" using ha by auto
    show ?thesis
    proof (cases "control_block ha")
      case None
      with assms(1-3) ha \<open>vars s b = None\<close> \<open>a \<noteq> b\<close> show ?thesis
        by (simp add: Swap_defs)
    next
      case (Some p)
      with live_a obtain blk where "blocks s p = Some blk" by blast
      with nz Some assms(1-3) ha \<open>vars s b = None\<close> \<open>a \<noteq> b\<close> show ?thesis
        by (simp add: Swap_defs)
    qed
  next
    case (Some hb)
    note hb = Some
    have live_b: "\<exists>blk. blocks s q = Some blk" if q: "control_block hb = Some q" for q
    proof (cases "a = b")
      case True
      with ha hb q live_a show ?thesis by simp
    next
      case False
      show ?thesis
      proof (cases "blocks s q")
        case (Some blk)
        then show ?thesis by simp
      next
        case None
        note qn = None
        show ?thesis
        proof (cases "control_block ha")
          case None
          with assms(1-3) ha hb q qn False show ?thesis
            by (simp add: Swap_defs)
        next
          case (Some p)
          with live_a obtain blk where blk: "blocks s p = Some blk" by blast
          with qn have "p \<noteq> q" by auto
          with blk nz [OF blk] Some assms(1-3) ha hb q qn False show ?thesis
            by (simp add: Swap_defs)
        qed
      qed
    qed
    from ha hb live_a live_b nz show ?thesis by blast
  qed
qed

lemma handles_ok_Swap:
  assumes "Swap s a b tmp = Inr s'" "tmp \<noteq> a" "tmp \<noteq> b" "handles_ok s"
  shows "handles_ok s'"
proof -
  from assms(4) have bo: "blocks_ok s" and vo: "vars_ok s" by (simp_all add: handles_ok_def)
  from Swap_needs_live_handles [OF assms(1-3) bo] obtain ha hb where
    h: "vars s a = Some ha" "vars s b = Some hb"
      "\<forall>p. control_block ha = Some p \<or> control_block hb = Some p \<longrightarrow>
              (\<exists>blk. blocks s p = Some blk \<and> ref_cnt blk \<noteq> 0)"
    by blast
  from Swap_result [OF h(1,2) assms(2,3) h(3)] assms(1) have s':
    "vars s' a = Some (ha\<lparr>data := data hb, control_block := control_block hb\<rparr>)"
    "vars s' b = Some (hb\<lparr>data := data ha, control_block := control_block ha\<rparr>)"
    "vars s' tmp = None"
    "\<forall>h. h \<noteq> a \<and> h \<noteq> b \<and> h \<noteq> tmp \<longrightarrow> vars s' h = vars s h"
    "blocks s' = blocks s"
    by auto
  have "blocks_ok s'" using bo s'(5) by (simp add: blocks_ok_def)
  moreover have "vars_ok s'"
    unfolding vars_ok_def
  proof (intro allI impI)
    fix h x assume x: "vars s' h = Some x" "control_block x = None"
    consider "h = a" | "h = b" | "h = tmp" | "h \<noteq> a" "h \<noteq> b" "h \<noteq> tmp" by blast
    then show "data x = None"
    proof cases
      case 1
      with x s'(1) vars_okD [OF vo h(2)] show ?thesis by auto
    next
      case 2
      with x s'(2) vars_okD [OF vo h(1)] show ?thesis by auto
    next
      case 3
      with x s'(3) show ?thesis by simp
    next
      case 4
      with x s'(4) vars_okD [OF vo] show ?thesis by auto
    qed
  qed
  ultimately show ?thesis by (simp add: handles_ok_def)
qed

lemma handles_ok_init: "handles_ok (init_state\<lparr>layout := L\<rparr>)"
  by (simp add: handles_ok_def vars_ok_def blocks_ok_def init_state_def)

lemma reachable_init_state: "reachable init_state"
  using r_init [of "\<lambda>Y T. 0"] by (simp add: init_state_def)

lemma reachable_handles_ok: "reachable s \<Longrightarrow> handles_ok s"
proof (induction rule: reachable.induct)
  case (r_init L)
  show ?case by (rule handles_ok_init)
next
  case (r_new_object s fs a s')
  then show ?case by (blast intro: handles_ok_new_object)
next
  case (r_default s h T s')
  then show ?case by (blast intro: handles_ok_default)
next
  case (r_nullptr s h T s')
  then show ?case by (blast intro: handles_ok_nullptr)
next
  case (r_ptr s h T Y p s')
  then show ?case by (blast intro: handles_ok_ptr)
next
  case (r_copy s h other s')
  then show ?case by (blast intro: handles_ok_copy)
next
  case (r_copy_conv s h T other s')
  then show ?case by (blast intro: handles_ok_copy_conv)
next
  case (r_move s h other s')
  then show ?case by (blast intro: handles_ok_move)
next
  case (r_move_conv s h T other s')
  then show ?case by (blast intro: handles_ok_move_conv)
next
  case (r_alias s h T other p s')
  then show ?case by (blast intro: handles_ok_alias)
next
  case (r_assign_copy s h other s')
  then show ?case by (blast intro: handles_ok_assign_copy)
next
  case (r_assign_move s h other s')
  then show ?case by (blast intro: handles_ok_assign_move)
next
  case (r_dtor s h s')
  then show ?case by (blast intro: handles_ok_dtor)
next
  case (r_Reset s h s')
  then show ?case using Reset_ok by blast
next
  case (r_Reset_ptr s h Y p s')
  then show ?case by (blast intro: handles_ok_Reset_ptr)
next
  case (r_Swap s tmp h other s')
  then show ?case by (blast intro: handles_ok_Swap)
next
  case (r_MakeShared s h Y ctor args s')
  then show ?case by (blast intro: handles_ok_MakeShared)
qed

section \<open>The claims\<close>

text \<open>
  C1. A control block and the resource it owns are destroyed exactly once, by the last
  release. Let \<open>n\<close> handles share block \<open>b\<close>, whose count is \<open>n\<close>, and let them give up
  their references one after the other, each by its destructor or by \<open>Reset()\<close>. Before
  the release number \<open>k + 1\<close> the block is still there with count \<open>n - k\<close>, which is 1
  exactly when that release is the last one, the objects are untouched, and the
  releases so far have only decremented: the trace grew by \<open>k\<close> events \<open>Dec b\<close> and by
  no destructor. After all \<open>n\<close> releases the block is gone and the trace ends with the
  events of one destruction of the block after the \<open>n - 1\<close> decrements.
\<close>

theorem block_destroyed_once_by_last_release:
  assumes "distinct (map handle_of acts)" "acts \<noteq> []" "length acts < 2 ^ 64"
    "\<forall>a\<in>set acts. \<exists>x. vars s (handle_of a) = Some x \<and> control_block x = Some b"
    "blocks s b = Some blk" "ref_cnt blk = of_nat (length acts)" "deletable s blk"
  shows "(\<forall>k<length acts. \<exists>s' blk'. release_all s (take k acts) = Inr s' \<and>
            blocks s' b = Some blk' \<and> ref_cnt blk' = of_nat (length acts - k) \<and>
            (ref_cnt blk' = 1 \<longleftrightarrow> Suc k = length acts) \<and>
            objects s' = objects s \<and>
            trace s' = trace s @ replicate k (Dec b)) \<and>
         (\<exists>s'. release_all s acts = Inr s' \<and> blocks s' b = None \<and>
            objects s' = (case owned_object blk of None \<Rightarrow> objects s
                          | Some a \<Rightarrow> (objects s)(a := None)) \<and>
            trace s' = trace s @ replicate (length acts - 1) (Dec b) @ destruction b blk)"
proof -
  note main = release_all_siblings [OF assms]
  have "\<exists>s' blk'. release_all s (take k acts) = Inr s' \<and>
            blocks s' b = Some blk' \<and> ref_cnt blk' = of_nat (length acts - k) \<and>
            (ref_cnt blk' = 1 \<longleftrightarrow> Suc k = length acts) \<and>
            objects s' = objects s \<and>
            trace s' = trace s @ replicate k (Dec b)" if k: "k < length acts" for k
  proof -
    from main k obtain s' where s': "release_all s (take k acts) = Inr s'"
      "blocks s' = (blocks s)(b \<mapsto> set_ref_cnt (of_nat (length acts - k)) blk)"
      "objects s' = objects s" "trace s' = trace s @ replicate k (Dec b)"
      by blast
    have "length acts - k < 2 ^ 64" using assms(3) by simp
    then have "(of_nat (length acts - k) = (1::64 word)) \<longleftrightarrow> length acts - k = 1"
      by (rule of_nat_eq_1_iff)
    also have "\<dots> \<longleftrightarrow> Suc k = length acts" using k by auto
    finally show ?thesis using s' by simp
  qed
  with main show ?thesis by blast
qed

theorem block_destroyed_once_by_last_release_witness:
  "distinct (map handle_of [ByDestructor 0, ByReset 1]) \<and>
   (\<exists>x. vars shared_state 0 = Some x \<and> control_block x = Some 1) \<and>
   (\<exists>x. vars shared_state 1 = Some x \<and> control_block x = Some 1) \<and>
   blocks shared_state 1 = Some (ControlBlockPtr 2 ''Data'' (Some (0, 0))) \<and>
   deletable shared_state (ControlBlockPtr 2 ''Data'' (Some (0, 0))) \<and>
   (\<exists>s'. release_all shared_state [ByDestructor 0] = Inr s' \<and>
      blocks s' 1 = Some (ControlBlockPtr 1 ''Data'' (Some (0, 0))) \<and>
      objects s' 0 = Some [42, 7] \<and>
      trace s' = trace shared_state @ [Dec 1]) \<and>
   (\<exists>s'. release_all shared_state [ByDestructor 0, ByReset 1] = Inr s' \<and>
      blocks s' 1 = None \<and> objects s' 0 = None \<and>
      trace s' = trace shared_state @ [Dec 1, Destroy ''Data'' (0, 0), Free 0, Free 1])"
proof -
  let ?acts = "[ByDestructor 0, ByReset 1]"
  let ?blk = "ControlBlockPtr 2 ''Data'' (Some (0, 0)) :: (string, int) ControlBlockBase"
  have h1: "distinct (map handle_of ?acts)" by simp
  have h2: "?acts \<noteq> []" by simp
  have h3: "length ?acts < 2 ^ 64" by simp
  have h4: "\<forall>a\<in>set ?acts.
      \<exists>x. vars shared_state (handle_of a) = Some x \<and> control_block x = Some 1"
    by (simp add: shared_state_def)
  have h5: "blocks shared_state 1 = Some ?blk" by (simp add: shared_state_def)
  have h6: "ref_cnt ?blk = of_nat (length ?acts)" by simp
  have h7: "deletable shared_state ?blk" by (simp add: shared_state_def)
  note inst = block_destroyed_once_by_last_release [OF h1 h2 h3 h4 h5 h6 h7]
  have k: "(1::nat) < length ?acts" by simp
  from inst have "\<forall>k<length ?acts. \<exists>s' blk'. release_all shared_state (take k ?acts) = Inr s' \<and>
            blocks s' 1 = Some blk' \<and> ref_cnt blk' = of_nat (length ?acts - k) \<and>
            (ref_cnt blk' = 1 \<longleftrightarrow> Suc k = length ?acts) \<and>
            objects s' = objects shared_state \<and>
            trace s' = trace shared_state @ replicate k (Dec 1)"
    by (rule conjunct1)
  with k obtain s' blk' where "release_all shared_state (take 1 ?acts) = Inr s'"
    "blocks s' 1 = Some blk'" "ref_cnt blk' = of_nat (length ?acts - 1)"
    "objects s' = objects shared_state" "trace s' = trace shared_state @ replicate 1 (Dec 1)"
    by blast
  then have p1: "\<exists>s'. release_all shared_state [ByDestructor 0] = Inr s' \<and>
      blocks s' 1 = Some (ControlBlockPtr 1 ''Data'' (Some (0, 0))) \<and>
      objects s' 0 = Some [42, 7] \<and>
      trace s' = trace shared_state @ [Dec 1]"
    by (auto simp: SharedPtr_dtor_def shared_state_def release_def)
  from inst have p2: "\<exists>s'. release_all shared_state ?acts = Inr s' \<and>
      blocks s' 1 = None \<and> objects s' 0 = None \<and>
      trace s' = trace shared_state @ [Dec 1, Destroy ''Data'' (0, 0), Free 0, Free 1]"
    by auto
  from h4 have h4': "(\<exists>x. vars shared_state 0 = Some x \<and> control_block x = Some 1) \<and>
      (\<exists>x. vars shared_state 1 = Some x \<and> control_block x = Some 1)"
    by simp
  from h1 h4' h5 h7 p1 p2 show ?thesis by blast
qed

text \<open>
  C2. Let \<open>other\<close> be a handle with a live block \<open>b\<close>, and \<open>this\<close> a different variable.
  The copy constructor gives \<open>this\<close> the data and the block of \<open>other\<close>, leaves \<open>other\<close>
  as it was and adds one to the count of \<open>b\<close>; both handles then report that count.
  The addition is that of \<open>size_t\<close>: the new count is the old one plus one as a number
  unless the old one was \<open>2^64 - 1\<close>. The move constructor gives \<open>this\<close> the data and the
  block, changes no block and writes no count, and leaves \<open>other\<close> with null data and no
  block, so that it reports count 0 and tests false.

  The converting constructors, from a \<open>SharedPtr<Y>\<close> to a \<open>SharedPtr<T>\<close>, do the same
  with the block and the count. The data they give \<open>this\<close> is the data of \<open>other\<close>
  converted from \<open>Y*\<close> to \<open>T*\<close>: null exactly when that of \<open>other\<close> is, so that \<open>this\<close> tests
  as \<open>other\<close> did, and the very same pointer when the base sub-object \<open>T\<close> lies at the
  start of \<open>Y\<close> (or \<open>T\<close> is \<open>Y\<close>); otherwise it points at the base sub-object inside the
  same object.
\<close>

theorem copy_increments_move_transfers:
  assumes "vars s other = Some oth" "control_block oth = Some b" "blocks s b = Some blk"
    "this \<noteq> other"
  shows "(\<exists>s'. SharedPtr_copy s this other = Inr s' \<and>
            vars s' this = Some oth \<and> vars s' other = Some oth \<and>
            blocks s' b = Some (set_ref_cnt (ref_cnt blk + 1) blk) \<and>
            objects s' = objects s \<and>
            UseCount s other = Inr (ref_cnt blk) \<and>
            UseCount s' this = Inr (ref_cnt blk + 1) \<and>
            UseCount s' other = Inr (ref_cnt blk + 1) \<and>
            (ref_cnt blk \<noteq> - 1 \<longrightarrow> unat (ref_cnt blk + 1) = unat (ref_cnt blk) + 1)) \<and>
         (\<exists>s'. SharedPtr_copy_conv s this T other = Inr s' \<and>
            vars s' this =
              Some \<lparr>data = convert_pointer s (elem_type oth) T (data oth),
                    control_block = Some b, elem_type = T\<rparr> \<and>
            vars s' other = Some oth \<and>
            blocks s' b = Some (set_ref_cnt (ref_cnt blk + 1) blk) \<and>
            objects s' = objects s \<and>
            UseCount s' this = Inr (ref_cnt blk + 1) \<and>
            UseCount s' other = Inr (ref_cnt blk + 1) \<and>
            operator_bool s' this = operator_bool s other \<and>
            (elem_type oth = T \<or> layout s (elem_type oth) T = 0 \<longrightarrow>
               Get s' this = Inr (data oth))) \<and>
         (\<exists>s'. SharedPtr_move s this other = Inr s' \<and>
            vars s' this = Some oth \<and>
            vars s' other = Some (oth\<lparr>data := None, control_block := None\<rparr>) \<and>
            blocks s' = blocks s \<and> objects s' = objects s \<and> trace s' = trace s \<and>
            UseCount s' this = Inr (ref_cnt blk) \<and>
            UseCount s' other = Inr 0 \<and> operator_bool s' other = Inr False) \<and>
         (\<exists>s'. SharedPtr_move_conv s this T other = Inr s' \<and>
            vars s' this =
              Some \<lparr>data = convert_pointer s (elem_type oth) T (data oth),
                    control_block = Some b, elem_type = T\<rparr> \<and>
            vars s' other = Some (oth\<lparr>data := None, control_block := None\<rparr>) \<and>
            blocks s' = blocks s \<and> objects s' = objects s \<and> trace s' = trace s \<and>
            UseCount s' this = Inr (ref_cnt blk) \<and>
            UseCount s' other = Inr 0 \<and> operator_bool s' other = Inr False \<and>
            operator_bool s' this = operator_bool s other \<and>
            (elem_type oth = T \<or> layout s (elem_type oth) T = 0 \<longrightarrow>
               Get s' this = Inr (data oth)))"
proof -
  have zero: "convert_pointer s (elem_type oth) T (data oth) = data oth"
    if "elem_type oth = T \<or> layout s (elem_type oth) T = 0"
    using that by (auto simp: convert_pointer_def split: option.splits)
  have c1: "\<exists>s'. SharedPtr_copy s this other = Inr s' \<and>
            vars s' this = Some oth \<and> vars s' other = Some oth \<and>
            blocks s' b = Some (set_ref_cnt (ref_cnt blk + 1) blk) \<and>
            objects s' = objects s \<and>
            UseCount s other = Inr (ref_cnt blk) \<and>
            UseCount s' this = Inr (ref_cnt blk + 1) \<and>
            UseCount s' other = Inr (ref_cnt blk + 1) \<and>
            (ref_cnt blk \<noteq> - 1 \<longrightarrow> unat (ref_cnt blk + 1) = unat (ref_cnt blk) + 1)"
    using assms
    by (simp add: SharedPtr_copy_def set_handle_def acquire_def increment_def UseCount_def
        unat_increment)
  have c2: "\<exists>s'. SharedPtr_copy_conv s this T other = Inr s' \<and>
            vars s' this =
              Some \<lparr>data = convert_pointer s (elem_type oth) T (data oth),
                    control_block = Some b, elem_type = T\<rparr> \<and>
            vars s' other = Some oth \<and>
            blocks s' b = Some (set_ref_cnt (ref_cnt blk + 1) blk) \<and>
            objects s' = objects s \<and>
            UseCount s' this = Inr (ref_cnt blk + 1) \<and>
            UseCount s' other = Inr (ref_cnt blk + 1) \<and>
            operator_bool s' this = operator_bool s other \<and>
            (elem_type oth = T \<or> layout s (elem_type oth) T = 0 \<longrightarrow>
               Get s' this = Inr (data oth))"
    using assms zero
    by (simp add: SharedPtr_copy_conv_def set_handle_def acquire_def increment_def
        UseCount_def operator_bool_eq Get_def)
  have m1: "\<exists>s'. SharedPtr_move s this other = Inr s' \<and>
            vars s' this = Some oth \<and>
            vars s' other = Some (oth\<lparr>data := None, control_block := None\<rparr>) \<and>
            blocks s' = blocks s \<and> objects s' = objects s \<and> trace s' = trace s \<and>
            UseCount s' this = Inr (ref_cnt blk) \<and>
            UseCount s' other = Inr 0 \<and> operator_bool s' other = Inr False"
    using assms
    by (simp add: SharedPtr_move_def set_handle_def UseCount_def operator_bool_def)
  have m2: "\<exists>s'. SharedPtr_move_conv s this T other = Inr s' \<and>
            vars s' this =
              Some \<lparr>data = convert_pointer s (elem_type oth) T (data oth),
                    control_block = Some b, elem_type = T\<rparr> \<and>
            vars s' other = Some (oth\<lparr>data := None, control_block := None\<rparr>) \<and>
            blocks s' = blocks s \<and> objects s' = objects s \<and> trace s' = trace s \<and>
            UseCount s' this = Inr (ref_cnt blk) \<and>
            UseCount s' other = Inr 0 \<and> operator_bool s' other = Inr False \<and>
            operator_bool s' this = operator_bool s other \<and>
            (elem_type oth = T \<or> layout s (elem_type oth) T = 0 \<longrightarrow>
               Get s' this = Inr (data oth))"
    using assms zero
    by (simp add: SharedPtr_move_conv_def set_handle_def UseCount_def operator_bool_eq
        Get_def)
  from c1 c2 m1 m2 show ?thesis by blast
qed

theorem copy_increments_move_transfers_witness:
  "vars owner_state 0 =
     Some \<lparr>data = Some (0, 0), control_block = Some 1, elem_type = ''Data''\<rparr> \<and>
   blocks owner_state 1 = Some (ControlBlockPtr 1 ''Data'' (Some (0, 0))) \<and>
   (\<exists>s'. SharedPtr_copy owner_state 1 0 = Inr s' \<and>
      UseCount owner_state 0 = Inr 1 \<and> UseCount s' 1 = Inr 2 \<and> UseCount s' 0 = Inr 2) \<and>
   (\<exists>s'. SharedPtr_move owner_state 1 0 = Inr s' \<and>
      UseCount s' 1 = Inr 1 \<and> UseCount s' 0 = Inr 0 \<and> operator_bool s' 0 = Inr False) \<and>
   vars two_bases_owner_state 0 =
     Some \<lparr>data = Some (0, 0), control_block = Some 1, elem_type = ''Data''\<rparr> \<and>
   blocks two_bases_owner_state 1 = Some (ControlBlockPtr 1 ''Data'' (Some (0, 0))) \<and>
   (\<exists>s'. SharedPtr_copy_conv two_bases_owner_state 1 ''Second'' 0 = Inr s' \<and>
      Get s' 1 = Inr (Some (0, 1)) \<and> deref s' 1 = Inr 7 \<and>
      Get s' 0 = Inr (Some (0, 0)) \<and> deref s' 0 = Inr 42 \<and>
      UseCount s' 1 = Inr 2 \<and> UseCount s' 0 = Inr 2) \<and>
   (\<exists>s'. SharedPtr_move_conv two_bases_owner_state 1 ''Second'' 0 = Inr s' \<and>
      Get s' 1 = Inr (Some (0, 1)) \<and> deref s' 1 = Inr 7 \<and>
      UseCount s' 1 = Inr 1 \<and> UseCount s' 0 = Inr 0 \<and> operator_bool s' 0 = Inr False) \<and>
   (\<exists>s'. SharedPtr_copy_conv two_bases_owner_state 1 ''First'' 0 = Inr s' \<and>
      Get s' 1 = Inr (Some (0, 0)) \<and> UseCount s' 1 = Inr 2)"
proof -
  let ?h = "\<lparr>data = Some (0, 0), control_block = Some 1, elem_type = ''Data''\<rparr>"
  let ?blk = "ControlBlockPtr 1 ''Data'' (Some (0, 0)) :: (string, int) ControlBlockBase"
  have h1: "vars owner_state 0 = Some ?h" by (simp add: owner_state_def)
  have h2: "control_block ?h = Some 1" by simp
  have h3: "blocks owner_state 1 = Some ?blk" by (simp add: owner_state_def)
  have h4: "(1::nat) \<noteq> 0" by simp
  note inst = copy_increments_move_transfers [OF h1 h2 h3 h4, of "''Data''"]
  from inst have p1: "\<exists>s'. SharedPtr_copy owner_state 1 0 = Inr s' \<and>
      UseCount owner_state 0 = Inr 1 \<and> UseCount s' 1 = Inr 2 \<and> UseCount s' 0 = Inr 2"
    by auto
  from inst have p2: "\<exists>s'. SharedPtr_move owner_state 1 0 = Inr s' \<and>
      UseCount s' 1 = Inr 1 \<and> UseCount s' 0 = Inr 0 \<and> operator_bool s' 0 = Inr False"
    by auto
  have g1: "vars two_bases_owner_state 0 = Some ?h"
    by (simp add: two_bases_owner_state_def owner_state_def)
  have g3: "blocks two_bases_owner_state 1 = Some ?blk"
    by (simp add: two_bases_owner_state_def owner_state_def)
  have obj: "objects two_bases_owner_state 0 = Some [42, 7]"
    by (simp add: two_bases_owner_state_def owner_state_def)
  have conv: "convert_pointer two_bases_owner_state (elem_type ?h) ''Second'' (data ?h)
                = Some (0, 1)"
    by (simp add: convert_pointer_def two_bases_owner_state_def two_bases_def)
  note inst2 = copy_increments_move_transfers [OF g1 h2 g3 h4, of "''Second''"]
  from inst2 [THEN conjunct2, THEN conjunct1] obtain t1 where
    t1: "SharedPtr_copy_conv two_bases_owner_state 1 ''Second'' 0 = Inr t1"
      "vars t1 1 = Some \<lparr>data = convert_pointer two_bases_owner_state (elem_type ?h)
                                  ''Second'' (data ?h),
                         control_block = Some 1, elem_type = ''Second''\<rparr>"
      "vars t1 0 = Some ?h"
      "UseCount t1 1 = Inr (ref_cnt ?blk + 1)" "UseCount t1 0 = Inr (ref_cnt ?blk + 1)"
      "objects t1 = objects two_bases_owner_state"
    by blast
  with obj have "objects t1 0 = Some [42, 7]" by simp
  with t1 conv have p3: "\<exists>s'. SharedPtr_copy_conv two_bases_owner_state 1 ''Second'' 0 = Inr s' \<and>
      Get s' 1 = Inr (Some (0, 1)) \<and> deref s' 1 = Inr 7 \<and>
      Get s' 0 = Inr (Some (0, 0)) \<and> deref s' 0 = Inr 42 \<and>
      UseCount s' 1 = Inr 2 \<and> UseCount s' 0 = Inr 2"
    by (simp add: Get_def deref_def load_def)
  from inst2 [THEN conjunct2, THEN conjunct2, THEN conjunct2] obtain t2 where
    t2: "SharedPtr_move_conv two_bases_owner_state 1 ''Second'' 0 = Inr t2"
      "vars t2 1 = Some \<lparr>data = convert_pointer two_bases_owner_state (elem_type ?h)
                                  ''Second'' (data ?h),
                         control_block = Some 1, elem_type = ''Second''\<rparr>"
      "UseCount t2 1 = Inr (ref_cnt ?blk)" "UseCount t2 0 = Inr 0"
      "operator_bool t2 0 = Inr False"
      "objects t2 = objects two_bases_owner_state"
    by blast
  with obj have "objects t2 0 = Some [42, 7]" by simp
  with t2 conv have p4: "\<exists>s'. SharedPtr_move_conv two_bases_owner_state 1 ''Second'' 0 = Inr s' \<and>
      Get s' 1 = Inr (Some (0, 1)) \<and> deref s' 1 = Inr 7 \<and>
      UseCount s' 1 = Inr 1 \<and> UseCount s' 0 = Inr 0 \<and> operator_bool s' 0 = Inr False"
    by (simp add: Get_def deref_def load_def)
  have lay: "layout two_bases_owner_state (elem_type ?h) ''First'' = 0"
    by (simp add: two_bases_owner_state_def two_bases_def)
  note inst3 = copy_increments_move_transfers [OF g1 h2 g3 h4, of "''First''"]
  from inst3 [THEN conjunct2, THEN conjunct1] lay have
    p5: "\<exists>s'. SharedPtr_copy_conv two_bases_owner_state 1 ''First'' 0 = Inr s' \<and>
      Get s' 1 = Inr (Some (0, 0)) \<and> UseCount s' 1 = Inr 2"
    by auto
  from h1 h3 p1 p2 g1 g3 p3 p4 p5 show ?thesis by blast
qed

text \<open>
  C3. What the code does when a handle is assigned to itself: \<open>h = h\<close> and
  \<open>h = std::move(h)\<close> do what \<open>h.Reset()\<close> does, in every store, because \<open>operator=\<close>
  resets \<open>*this\<close> before it reads \<open>other\<close>. So a handle that owns something does not keep
  its count and data: for the sole owner of an object (count 1) the object is
  destroyed and the handle is left empty with count 0; for one of two owners the
  handle is left empty and the other owner's count drops to 1.
\<close>

theorem self_assignment_is_Reset:
  "assign_copy s h h = Reset s h \<and> assign_move s h h = Reset s h \<and>
   UseCount owner_state 0 = Inr 1 \<and> Get owner_state 0 = Inr (Some (0, 0)) \<and>
   objects owner_state 0 = Some [42, 7] \<and>
   (\<exists>s'. assign_copy owner_state 0 0 = Inr s' \<and>
      UseCount s' 0 = Inr 0 \<and> Get s' 0 = Inr None \<and> objects s' 0 = None \<and>
      trace s' = trace owner_state @ [Destroy ''Data'' (0, 0), Free 0, Free 1]) \<and>
   (\<exists>s'. assign_move owner_state 0 0 = Inr s' \<and>
      UseCount s' 0 = Inr 0 \<and> Get s' 0 = Inr None \<and> objects s' 0 = None \<and>
      trace s' = trace owner_state @ [Destroy ''Data'' (0, 0), Free 0, Free 1]) \<and>
   (\<exists>s'. assign_copy shared_state 0 0 = Inr s' \<and>
      UseCount shared_state 0 = Inr 2 \<and>
      UseCount s' 0 = Inr 0 \<and> Get s' 0 = Inr None \<and> UseCount s' 1 = Inr 1)"
proof -
  have c: "UseCount owner_state 0 = Inr 1 \<and> Get owner_state 0 = Inr (Some (0, 0)) \<and>
   objects owner_state 0 = Some [42, 7]"
    by (simp add: owner_state_def UseCount_def Get_def)
  have d: "\<exists>s'. Reset owner_state 0 = Inr s' \<and>
      UseCount s' 0 = Inr 0 \<and> Get s' 0 = Inr None \<and> objects s' 0 = None \<and>
      trace s' = trace owner_state @ [Destroy ''Data'' (0, 0), Free 0, Free 1]"
    by (simp add: owner_state_def Reset_def release_def delete_block_def set_handle_def
        UseCount_def Get_def)
  have e: "\<exists>s'. Reset shared_state 0 = Inr s' \<and>
      UseCount shared_state 0 = Inr 2 \<and>
      UseCount s' 0 = Inr 0 \<and> Get s' 0 = Inr None \<and> UseCount s' 1 = Inr 1"
    by (simp add: shared_state_def Reset_def release_def delete_block_def set_handle_def
        UseCount_def Get_def)
  from c d e show ?thesis by (simp add: assign_copy_self assign_move_self)
qed

text \<open>
  C4, as the code has it. For every handle of a reachable store, \<open>UseCount()\<close> is 0 if
  and only if the handle has no control block, and a handle without a control block
  has null data, so it tests false: count 0 implies boolean-false. The converse is
  not claimed.
\<close>

theorem zero_count_iff_no_block:
  assumes "reachable s" "vars s h = Some x"
  shows "(UseCount s h = Inr 0 \<longleftrightarrow> control_block x = None) \<and>
         (control_block x = None \<longrightarrow> operator_bool s h = Inr False) \<and>
         (UseCount s h = Inr 0 \<longrightarrow> operator_bool s h = Inr False)"
proof -
  from reachable_handles_ok [OF assms(1)] have vo: "vars_ok s" and bo: "blocks_ok s"
    by (simp_all add: handles_ok_def)
  have a: "UseCount s h = Inr 0 \<longleftrightarrow> control_block x = None"
  proof (cases "control_block x")
    case None
    with assms(2) show ?thesis by (simp add: UseCount_def)
  next
    case (Some b)
    show ?thesis
    proof (cases "blocks s b")
      case None
      with Some assms(2) show ?thesis by (simp add: UseCount_def)
    next
      case (Some blk)
      with bo have "ref_cnt blk \<noteq> 0" by (auto simp: blocks_ok_def)
      with Some \<open>control_block x = Some b\<close> assms(2) show ?thesis
        by (simp add: UseCount_def)
    qed
  qed
  have b: "operator_bool s h = Inr False" if "control_block x = None"
    using vars_okD [OF vo assms(2) that] assms(2) by (simp add: operator_bool_def)
  from a b show ?thesis by blast
qed

theorem zero_count_iff_no_block_witness:
  "reachable (set_handle (init_state :: (string, int) state) 0
               \<lparr>data = None, control_block = None, elem_type = ''int''\<rparr>) \<and>
   vars (set_handle (init_state :: (string, int) state) 0
               \<lparr>data = None, control_block = None, elem_type = ''int''\<rparr>) 0 =
     Some \<lparr>data = None, control_block = None, elem_type = ''int''\<rparr> \<and>
   UseCount (set_handle (init_state :: (string, int) state) 0
               \<lparr>data = None, control_block = None, elem_type = ''int''\<rparr>) 0 = Inr 0 \<and>
   operator_bool (set_handle (init_state :: (string, int) state) 0
               \<lparr>data = None, control_block = None, elem_type = ''int''\<rparr>) 0 = Inr False"
proof -
  let ?x = "\<lparr>data = None, control_block = None, elem_type = ''int''\<rparr>"
  let ?s = "set_handle (init_state :: (string, int) state) 0 ?x"
  have "vars (init_state :: (string, int) state) 0 = None" by (simp add: init_state_def)
  moreover have "SharedPtr_default (init_state :: (string, int) state) 0 ''int'' = Inr ?s"
    by (simp add: SharedPtr_default_def)
  ultimately have r: "reachable ?s" using reachable_init_state by (rule r_default [rotated])
  have v: "vars ?s 0 = Some ?x" by (simp add: set_handle_def)
  from zero_count_iff_no_block [OF r v] have "UseCount ?s 0 = Inr 0"
    "operator_bool ?s 0 = Inr False"
    by simp_all
  with r v show ?thesis by blast
qed

text \<open>
  C4 as it is stated fails on the code: the handle that adopts a null raw pointer is
  reachable, tests false, and has count 1.
\<close>

theorem null_adoption_false_with_count_one:
  "SharedPtr_ptr init_state 0 ''int'' ''int'' None = Inr null_adopted_state \<and>
   reachable null_adopted_state \<and>
   operator_bool null_adopted_state 0 = Inr False \<and>
   UseCount null_adopted_state 0 = Inr 1"
proof -
  have run: "SharedPtr_ptr init_state 0 ''int'' ''int'' None = Inr null_adopted_state"
    by (simp add: SharedPtr_ptr_def new_block_def set_handle_def init_state_def
        null_adopted_state_def)
  have "vars (init_state :: (string, int) state) 0 = None" by (simp add: init_state_def)
  with reachable_init_state have "reachable null_adopted_state" using run by (rule r_ptr)
  moreover have "operator_bool null_adopted_state 0 = Inr False"
    "UseCount null_adopted_state 0 = Inr 1"
    by (simp_all add: operator_bool_def UseCount_def null_adopted_state_def)
  ultimately show ?thesis using run by blast
qed

text \<open>
  C5. Let \<open>other\<close> be a handle with a live block \<open>b\<close>, \<open>this\<close> a different variable and
  \<open>ptr\<close> any data pointer. The aliasing constructor gives \<open>this\<close> the data \<open>ptr\<close> and the
  block \<open>b\<close>, leaves \<open>other\<close> as it was and adds one to the count of \<open>b\<close>; dereferencing
  the alias reads what \<open>ptr\<close> points at. Then let all the handles that now share \<open>b\<close>
  (as many as the count says, the original and the alias among them) be released in
  any order. Before each release the objects of the store are as they were, no
  destructor has run, and while the alias is not yet released dereferencing it still
  reads the value at \<open>ptr\<close>. Only the last release destroys the block and what it owns.
\<close>

theorem alias_shares_block_and_keeps_object_alive:
  assumes "vars s other = Some oth" "control_block oth = Some b" "blocks s b = Some blk"
    "this \<noteq> other"
  shows "\<exists>s'. SharedPtr_alias s this T other ptr = Inr s' \<and>
           vars s' this = Some \<lparr>data = ptr, control_block = Some b, elem_type = T\<rparr> \<and>
           vars s' other = Some oth \<and>
           blocks s' = (blocks s)(b \<mapsto> set_ref_cnt (ref_cnt blk + 1) blk) \<and>
           objects s' = objects s \<and>
           UseCount s' this = Inr (ref_cnt blk + 1) \<and>
           UseCount s' other = Inr (ref_cnt blk + 1) \<and>
           deref s' this = load s ptr \<and>
           (\<forall>acts. distinct (map handle_of acts) \<and> acts \<noteq> [] \<and> length acts < 2 ^ 64 \<and>
              (\<forall>r\<in>set acts. \<exists>x. vars s' (handle_of r) = Some x \<and> control_block x = Some b) \<and>
              ref_cnt blk + 1 = of_nat (length acts) \<and> deletable s blk \<longrightarrow>
              (\<forall>k<length acts. \<exists>s''. release_all s' (take k acts) = Inr s'' \<and>
                 objects s'' = objects s \<and>
                 trace s'' = trace s' @ replicate k (Dec b) \<and>
                 (this \<notin> handle_of ` set (take k acts) \<longrightarrow> deref s'' this = load s ptr)) \<and>
              (\<exists>s''. release_all s' acts = Inr s'' \<and> blocks s'' b = None \<and>
                 objects s'' = (case owned_object blk of None \<Rightarrow> objects s
                                | Some a \<Rightarrow> (objects s)(a := None)) \<and>
                 trace s'' =
                   trace s' @ replicate (length acts - 1) (Dec b) @ destruction b blk))"
proof -
  let ?blk = "set_ref_cnt (ref_cnt blk + 1) blk"
  let ?h = "\<lparr>data = ptr, control_block = Some b, elem_type = T\<rparr>"
  define s' where "s' = s\<lparr>vars := (vars s)(this \<mapsto> ?h),
                         blocks := (blocks s)(b \<mapsto> ?blk), trace := trace s @ [Inc b]\<rparr>"
  have run: "SharedPtr_alias s this T other ptr = Inr s'"
    using assms by (simp add: SharedPtr_alias_def set_handle_def increment_def s'_def)
  have basic: "vars s' this = Some ?h" "vars s' other = Some oth"
    "blocks s' = (blocks s)(b \<mapsto> ?blk)" "objects s' = objects s"
    using assms by (simp_all add: s'_def)
  have blk': "blocks s' b = Some ?blk" using basic(3) by simp
  have counts: "UseCount s' this = Inr (ref_cnt blk + 1)" "UseCount s' other = Inr (ref_cnt blk + 1)"
    using basic(1,2) blk' assms(2) by (simp_all add: UseCount_def)
  have ld: "load s' p = load s p" for p
    using basic(4,3) assms(3) by (rule load_count_change)
  have d0: "deref s' this = load s ptr"
    using basic(1) ld by (simp add: deref_def)
  have life: "(\<forall>k<length acts. \<exists>s''. release_all s' (take k acts) = Inr s'' \<and>
                 objects s'' = objects s \<and>
                 trace s'' = trace s' @ replicate k (Dec b) \<and>
                 (this \<notin> handle_of ` set (take k acts) \<longrightarrow> deref s'' this = load s ptr)) \<and>
              (\<exists>s''. release_all s' acts = Inr s'' \<and> blocks s'' b = None \<and>
                 objects s'' = (case owned_object blk of None \<Rightarrow> objects s
                                | Some a \<Rightarrow> (objects s)(a := None)) \<and>
                 trace s'' =
                   trace s' @ replicate (length acts - 1) (Dec b) @ destruction b blk)"
    if a: "distinct (map handle_of acts)" "acts \<noteq> []" "length acts < 2 ^ 64"
      "\<forall>r\<in>set acts. \<exists>x. vars s' (handle_of r) = Some x \<and> control_block x = Some b"
      "ref_cnt blk + 1 = of_nat (length acts)" "deletable s blk"
    for acts
  proof -
    have cnt: "ref_cnt ?blk = of_nat (length acts)" using a(5) by simp
    have del: "deletable s' ?blk"
      using a(6) basic(4) by (cases blk rule: owned_object.cases) simp_all
    note sib = release_all_siblings [OF a(1,2,3,4) blk' cnt del]
    have p1: "\<exists>s''. release_all s' (take k acts) = Inr s'' \<and>
                 objects s'' = objects s \<and>
                 trace s'' = trace s' @ replicate k (Dec b) \<and>
                 (this \<notin> handle_of ` set (take k acts) \<longrightarrow> deref s'' this = load s ptr)"
      if k: "k < length acts" for k
    proof -
      from sib k obtain s'' where s'': "release_all s' (take k acts) = Inr s''"
        "blocks s'' = (blocks s')(b \<mapsto> set_ref_cnt (of_nat (length acts - k)) ?blk)"
        "objects s'' = objects s'" "trace s'' = trace s' @ replicate k (Dec b)"
        "\<forall>h. h \<notin> handle_of ` set (take k acts) \<longrightarrow> vars s'' h = vars s' h"
        by blast
      have "load s'' p = load s' p" for p
        using s''(3,2) blk' by (rule load_count_change)
      then have "deref s'' this = load s ptr" if "this \<notin> handle_of ` set (take k acts)"
        using that s''(5) basic(1) ld by (simp add: deref_def)
      with s'' basic(4) show ?thesis by auto
    qed
    from sib obtain s'' where "release_all s' acts = Inr s''" "blocks s'' b = None"
      "objects s'' = (case owned_object ?blk of None \<Rightarrow> objects s'
                          | Some a \<Rightarrow> (objects s')(a := None))"
      "trace s'' = trace s' @ replicate (length acts - 1) (Dec b) @ destruction b ?blk"
      by blast
    with basic(4) have p2: "\<exists>s''. release_all s' acts = Inr s'' \<and> blocks s'' b = None \<and>
                 objects s'' = (case owned_object blk of None \<Rightarrow> objects s
                                | Some a \<Rightarrow> (objects s)(a := None)) \<and>
                 trace s'' =
                   trace s' @ replicate (length acts - 1) (Dec b) @ destruction b blk"
      by (simp split: option.splits)
    from p1 p2 show ?thesis by blast
  qed
  from run basic counts d0 life show ?thesis by blast
qed

theorem alias_shares_block_and_keeps_object_alive_witness:
  "vars owner_state 0 =
     Some \<lparr>data = Some (0, 0), control_block = Some 1, elem_type = ''Data''\<rparr> \<and>
   blocks owner_state 1 = Some (ControlBlockPtr 1 ''Data'' (Some (0, 0))) \<and>
   objects owner_state 0 = Some [42, 7] \<and>
   (\<exists>s'. SharedPtr_alias owner_state 1 ''int'' 0 (Some (0, 1)) = Inr s' \<and>
      Get s' 1 = Inr (Some (0, 1)) \<and> UseCount s' 1 = Inr 2 \<and> deref s' 1 = Inr 7 \<and>
      (\<exists>s''. release_all s' [ByDestructor 0] = Inr s'' \<and>
         objects s'' 0 = Some [42, 7] \<and> deref s'' 1 = Inr 7 \<and>
         trace s'' = trace s' @ [Dec 1]) \<and>
      (\<exists>s''. release_all s' [ByDestructor 0, ByDestructor 1] = Inr s'' \<and>
         objects s'' 0 = None \<and>
         trace s'' = trace s' @ [Dec 1, Destroy ''Data'' (0, 0), Free 0, Free 1]))"
proof -
  let ?h = "\<lparr>data = Some (0, 0), control_block = Some 1, elem_type = ''Data''\<rparr>"
  let ?blk = "ControlBlockPtr 1 ''Data'' (Some (0, 0)) :: (string, int) ControlBlockBase"
  let ?acts = "[ByDestructor 0, ByDestructor 1]"
  have h1: "vars owner_state 0 = Some ?h" by (simp add: owner_state_def)
  have h2: "control_block ?h = Some 1" by simp
  have h3: "blocks owner_state 1 = Some ?blk" by (simp add: owner_state_def)
  have h4: "(1::nat) \<noteq> 0" by simp
  have h5: "objects owner_state 0 = Some [42, 7]" by (simp add: owner_state_def)
  from alias_shares_block_and_keeps_object_alive
         [OF h1 h2 h3 h4, of "''int''" "Some (0, 1)"]
  obtain s' where s': "SharedPtr_alias owner_state 1 ''int'' 0 (Some (0, 1)) = Inr s'"
    "vars s' 1 = Some \<lparr>data = Some (0, 1), control_block = Some 1, elem_type = ''int''\<rparr>"
    "vars s' 0 = Some ?h"
    "UseCount s' 1 = Inr (ref_cnt ?blk + 1)"
    "deref s' 1 = load owner_state (Some (0, 1))"
    and life: "\<forall>acts. distinct (map handle_of acts) \<and> acts \<noteq> [] \<and> length acts < 2 ^ 64 \<and>
        (\<forall>r\<in>set acts. \<exists>x. vars s' (handle_of r) = Some x \<and> control_block x = Some 1) \<and>
        ref_cnt ?blk + 1 = of_nat (length acts) \<and> deletable owner_state ?blk \<longrightarrow>
        (\<forall>k<length acts. \<exists>s''. release_all s' (take k acts) = Inr s'' \<and>
           objects s'' = objects owner_state \<and>
           trace s'' = trace s' @ replicate k (Dec 1) \<and>
           (1 \<notin> handle_of ` set (take k acts) \<longrightarrow>
              deref s'' 1 = load owner_state (Some (0, 1)))) \<and>
        (\<exists>s''. release_all s' acts = Inr s'' \<and> blocks s'' 1 = None \<and>
           objects s'' = (case owned_object ?blk of None \<Rightarrow> objects owner_state
                          | Some a \<Rightarrow> (objects owner_state)(a := None)) \<and>
           trace s'' = trace s' @ replicate (length acts - 1) (Dec 1) @ destruction 1 ?blk)"
    by blast
  have ld: "load owner_state (Some (0, 1)) = Inr 7"
    by (simp add: load_def owner_state_def)
  have pre: "distinct (map handle_of ?acts) \<and> ?acts \<noteq> [] \<and> length ?acts < 2 ^ 64 \<and>
        (\<forall>r\<in>set ?acts. \<exists>x. vars s' (handle_of r) = Some x \<and> control_block x = Some 1) \<and>
        ref_cnt ?blk + 1 = of_nat (length ?acts) \<and> deletable owner_state ?blk"
    using s'(2,3) by (simp add: owner_state_def)
  from life pre have res:
    "(\<forall>k<length ?acts. \<exists>s''. release_all s' (take k ?acts) = Inr s'' \<and>
           objects s'' = objects owner_state \<and>
           trace s'' = trace s' @ replicate k (Dec 1) \<and>
           (1 \<notin> handle_of ` set (take k ?acts) \<longrightarrow>
              deref s'' 1 = load owner_state (Some (0, 1)))) \<and>
        (\<exists>s''. release_all s' ?acts = Inr s'' \<and> blocks s'' 1 = None \<and>
           objects s'' = (case owned_object ?blk of None \<Rightarrow> objects owner_state
                          | Some a \<Rightarrow> (objects owner_state)(a := None)) \<and>
           trace s'' = trace s' @ replicate (length ?acts - 1) (Dec 1) @ destruction 1 ?blk)"
    by blast
  have k: "(1::nat) < length ?acts" by simp
  from res k obtain s1 where "release_all s' (take 1 ?acts) = Inr s1"
    "objects s1 = objects owner_state" "trace s1 = trace s' @ replicate 1 (Dec 1)"
    "1 \<notin> handle_of ` set (take 1 ?acts) \<longrightarrow> deref s1 1 = load owner_state (Some (0, 1))"
    by blast
  then have p1: "\<exists>s''. release_all s' [ByDestructor 0] = Inr s'' \<and>
         objects s'' 0 = Some [42, 7] \<and> deref s'' 1 = Inr 7 \<and>
         trace s'' = trace s' @ [Dec 1]"
    using ld h5 by simp
  from res have p2: "\<exists>s''. release_all s' ?acts = Inr s'' \<and>
         objects s'' 0 = None \<and>
         trace s'' = trace s' @ [Dec 1, Destroy ''Data'' (0, 0), Free 0, Free 1]"
    by auto
  have "Get s' 1 = Inr (Some (0, 1))" "UseCount s' 1 = Inr 2" "deref s' 1 = Inr 7"
    using s'(2,4,5) ld by (simp_all add: Get_def)
  with h1 h3 h5 s'(1) p1 p2 show ?thesis by blast
qed

text \<open>
  C6. \<open>MakeShared<Y>(args...)\<close> returns normally from every store, for every payload type
  and every argument. It performs one allocation, that of the block; the block is a
  \<open>ControlBlockHolder<Y>\<close> with count 1 holding the value that the constructor of \<open>Y\<close>
  builds from the arguments; the returned handle points at the start of that storage
  and reports count 1, and dereferencing it reads the value built (the address that
  the allocator hands out being unused). The constructor of \<open>Y\<close> is a function of the
  arguments here: allocations that a payload's own constructor makes are not those of
  the factory.
\<close>

theorem MakeShared_allocates_once:
  "\<exists>s'. MakeShared s this Y ctor args = Inr s' \<and>
     trace s' = trace s @ [Alloc (next_addr s)] \<and>
     length (filter is_Alloc (trace s')) = length (filter is_Alloc (trace s)) + 1 \<and>
     blocks s' = (blocks s)(next_addr s \<mapsto> ControlBlockHolder 1 Y (ctor args)) \<and>
     objects s' = objects s \<and>
     vars s' this =
       Some \<lparr>data = Some (next_addr s, 0), control_block = Some (next_addr s),
             elem_type = Y\<rparr> \<and>
     UseCount s' this = Inr 1 \<and>
     (objects s (next_addr s) = None \<and> ctor args \<noteq> [] \<longrightarrow>
        deref s' this = Inr (hd (ctor args)))"
  by (simp add: MakeShared_def SharedPtr_default_def new_block_def set_handle_def
      UseCount_def deref_def load_def hd_conv_nth)

theorem MakeShared_allocates_once_witness:
  "objects (init_state :: (string, int) state) (next_addr (init_state :: (string, int) state))
     = None \<and>
   (\<exists>s'. MakeShared (init_state :: (string, int) state) 0 ''int'' (\<lambda>n. [n]) 42 = Inr s' \<and>
      trace s' = [Alloc 0] \<and> UseCount s' 0 = Inr 1 \<and> deref s' 0 = Inr 42)"
proof -
  let ?s = "init_state :: (string, int) state"
  have h: "objects ?s (next_addr ?s) = None \<and> (\<lambda>n. [n]) (42::int) \<noteq> []"
    by (simp add: init_state_def)
  from MakeShared_allocates_once [of ?s 0 "''int''" "\<lambda>n. [n]" 42]
  obtain s' where s': "MakeShared ?s 0 ''int'' (\<lambda>n. [n]) 42 = Inr s'"
    "trace s' = trace ?s @ [Alloc (next_addr ?s)]" "UseCount s' 0 = Inr 1"
    "objects ?s (next_addr ?s) = None \<and> (\<lambda>n. [n]) (42::int) \<noteq> [] \<longrightarrow>
        deref s' 0 = Inr (hd ((\<lambda>n. [n]) (42::int)))"
    by blast
  from s'(4) h have "deref s' 0 = Inr 42" by simp
  moreover from s'(2) have "trace s' = [Alloc 0]" by (simp add: init_state_def)
  ultimately show ?thesis using s'(1,3) h by blast
qed

text \<open>
  C7, as the code has it. Let \<open>a\<close> and \<open>b\<close> be handles (the same one or not) whose
  blocks, where they have one, are live with a count that is not 0, and let the local
  of \<open>Swap\<close> be an unused variable. \<open>a.Swap(b)\<close> returns normally; afterwards \<open>a\<close> has the data
  and the block that \<open>b\<close> had and the other way round, no other variable has changed,
  every block and so every count is as before, the objects are as before, and nothing
  was allocated. The counts are restored, not left alone: all that the call traces
  are increments and decrements.
\<close>

theorem Swap_exchanges_and_restores_counts:
  assumes "vars s a = Some ha" "vars s b = Some hb" "tmp \<noteq> a" "tmp \<noteq> b" "vars s tmp = None"
    "\<forall>p. control_block ha = Some p \<or> control_block hb = Some p \<longrightarrow>
       (\<exists>blk. blocks s p = Some blk \<and> ref_cnt blk \<noteq> 0)"
  shows "\<exists>s'. Swap s a b tmp = Inr s' \<and>
           vars s' a = Some (ha\<lparr>data := data hb, control_block := control_block hb\<rparr>) \<and>
           vars s' b = Some (hb\<lparr>data := data ha, control_block := control_block ha\<rparr>) \<and>
           (\<forall>h. h \<noteq> a \<and> h \<noteq> b \<longrightarrow> vars s' h = vars s h) \<and>
           blocks s' = blocks s \<and> objects s' = objects s \<and> next_addr s' = next_addr s \<and>
           UseCount s' a = UseCount s b \<and> UseCount s' b = UseCount s a \<and>
           filter is_Alloc (trace s') = filter is_Alloc (trace s) \<and>
           (\<exists>evs. trace s' = trace s @ evs \<and> (\<forall>e\<in>set evs. \<exists>p. e = Inc p \<or> e = Dec p))"
proof -
  from Swap_result [OF assms(1-4,6)] obtain s' evs where s': "Swap s a b tmp = Inr s'"
    "vars s' a = Some (ha\<lparr>data := data hb, control_block := control_block hb\<rparr>)"
    "vars s' b = Some (hb\<lparr>data := data ha, control_block := control_block ha\<rparr>)"
    "vars s' tmp = None"
    "\<forall>h. h \<noteq> a \<and> h \<noteq> b \<and> h \<noteq> tmp \<longrightarrow> vars s' h = vars s h"
    "blocks s' = blocks s" "objects s' = objects s" "next_addr s' = next_addr s"
    "trace s' = trace s @ evs" "\<forall>e\<in>set evs. \<exists>p. e = Inc p \<or> e = Dec p"
    by blast
  have others: "\<forall>h. h \<noteq> a \<and> h \<noteq> b \<longrightarrow> vars s' h = vars s h"
    using s'(4,5) assms(5) by metis
  have counts: "UseCount s' a = UseCount s b" "UseCount s' b = UseCount s a"
    using s'(2,3,6) assms(1,2) by (simp_all add: UseCount_def split: option.splits)
  have "filter is_Alloc evs = []"
    using s'(10) by (auto simp: filter_empty_conv)
  then have "filter is_Alloc (trace s') = filter is_Alloc (trace s)"
    using s'(9) by simp
  with s' others counts show ?thesis by blast
qed

theorem Swap_exchanges_and_restores_counts_witness:
  "vars two_owners_state 0 =
     Some \<lparr>data = Some (0, 0), control_block = Some 1, elem_type = ''Data''\<rparr> \<and>
   vars two_owners_state 1 =
     Some \<lparr>data = Some (2, 0), control_block = Some 3, elem_type = ''Data''\<rparr> \<and>
   vars two_owners_state 2 = None \<and>
   blocks two_owners_state 1 = Some (ControlBlockPtr 1 ''Data'' (Some (0, 0))) \<and>
   blocks two_owners_state 3 = Some (ControlBlockPtr 1 ''Data'' (Some (2, 0))) \<and>
   (\<exists>s'. Swap two_owners_state 0 1 2 = Inr s' \<and>
      Get s' 0 = Inr (Some (2, 0)) \<and> Get s' 1 = Inr (Some (0, 0)) \<and>
      UseCount s' 0 = Inr 1 \<and> UseCount s' 1 = Inr 1 \<and>
      blocks s' = blocks two_owners_state \<and>
      filter is_Alloc (trace s') = filter is_Alloc (trace two_owners_state))"
proof -
  let ?ha = "\<lparr>data = Some (0, 0), control_block = Some 1, elem_type = ''Data''\<rparr>"
  let ?hb = "\<lparr>data = Some (2, 0), control_block = Some 3, elem_type = ''Data''\<rparr>"
  have h1: "vars two_owners_state 0 = Some ?ha" by (simp add: two_owners_state_def)
  have h2: "vars two_owners_state 1 = Some ?hb" by (simp add: two_owners_state_def)
  have h3: "(2::nat) \<noteq> 0" by simp
  have h4: "(2::nat) \<noteq> 1" by simp
  have h5: "vars two_owners_state 2 = None" by (simp add: two_owners_state_def)
  have h6: "\<forall>p. control_block ?ha = Some p \<or> control_block ?hb = Some p \<longrightarrow>
       (\<exists>blk. blocks two_owners_state p = Some blk \<and> ref_cnt blk \<noteq> 0)"
    by (auto simp: two_owners_state_def)
  have b1: "blocks two_owners_state 1 = Some (ControlBlockPtr 1 ''Data'' (Some (0, 0)))"
    and b3: "blocks two_owners_state 3 = Some (ControlBlockPtr 1 ''Data'' (Some (2, 0)))"
    by (simp_all add: two_owners_state_def)
  from Swap_exchanges_and_restores_counts [OF h1 h2 h3 h4 h5 h6]
  obtain s' where s': "Swap two_owners_state 0 1 2 = Inr s'"
    "vars s' 0 = Some (?ha\<lparr>data := data ?hb, control_block := control_block ?hb\<rparr>)"
    "vars s' 1 = Some (?hb\<lparr>data := data ?ha, control_block := control_block ?ha\<rparr>)"
    "blocks s' = blocks two_owners_state"
    "UseCount s' 0 = UseCount two_owners_state 1"
    "UseCount s' 1 = UseCount two_owners_state 0"
    "filter is_Alloc (trace s') = filter is_Alloc (trace two_owners_state)"
    by blast
  have "Get s' 0 = Inr (Some (2, 0))" "Get s' 1 = Inr (Some (0, 0))"
    using s'(2,3) by (simp_all add: Get_def)
  moreover have "UseCount s' 0 = Inr 1" "UseCount s' 1 = Inr 1"
    using s'(5,6) h1 h2 b1 b3 by (simp_all add: UseCount_def)
  ultimately show ?thesis using h1 h2 h5 b1 b3 s'(1,4,7) by blast
qed

text \<open>
  C7 as it is stated fails on the code: \<open>Swap\<close> begins with \<open>auto tmp = *this\<close>, a copy
  construction that raises the count of the block of \<open>*this\<close> from 1 to 2, and goes on
  with two copy assignments; the call on two sole owners writes counts six times.
\<close>

theorem Swap_copies_and_increments:
  "UseCount two_owners_state 0 = Inr 1 \<and>
   SharedPtr_copy two_owners_state 2 0 =
     Inr (two_owners_state
           \<lparr>vars := (vars two_owners_state)
              (2 \<mapsto> \<lparr>data = Some (0, 0), control_block = Some 1, elem_type = ''Data''\<rparr>),
            blocks := (blocks two_owners_state)
              (1 \<mapsto> ControlBlockPtr 2 ''Data'' (Some (0, 0))),
            trace := trace two_owners_state @ [Inc 1]\<rparr>) \<and>
   Swap two_owners_state 0 1 2 = Inr swapped_state \<and>
   trace swapped_state = trace two_owners_state @ [Inc 1, Dec 1, Inc 3, Dec 3, Inc 1, Dec 1]"
  apply (simp add: Swap_defs two_owners_state_def swapped_state_def UseCount_def)
  apply (auto intro!: ext)
  done

text \<open>
  C8. The type that destroys the object is the type \<open>Y\<close> of the block, fixed when the block
  is made, whatever the element type of the handle that gives up the last reference.
  A block made by adopting a pointer to a live object as \<open>Y*\<close> (into a handle of any
  element type \<open>T0\<close>), then shared with a handle of element type \<open>T\<close> by the converting
  copy, or handed to it by the converting move: the release of the last reference,
  through the handle of type \<open>T\<close>, runs the destructor of \<open>Y\<close> on the object, once, and
  no other. The same holds for a block made by \<open>MakeShared<Y>\<close> and moved into a handle
  of type \<open>T\<close>.
\<close>

theorem block_type_decides_destructor:
  assumes "objects s a = Some fs" "d \<noteq> h"
  shows "(\<exists>s1 s2 s3 s4 x. SharedPtr_ptr s d T0 Y (Some (a, 0)) = Inr s1 \<and>
            SharedPtr_copy_conv s1 h T d = Inr s2 \<and>
            vars s2 h = Some x \<and> elem_type x = T \<and> control_block x = Some (next_addr s) \<and>
            SharedPtr_dtor s2 d = Inr s3 \<and>
            trace s3 = trace s2 @ [Dec (next_addr s)] \<and>
            SharedPtr_dtor s3 h = Inr s4 \<and>
            trace s4 = trace s3 @ [Destroy Y (a, 0), Free a, Free (next_addr s)] \<and>
            objects s4 a = None) \<and>
         (\<exists>s1 s2 s3 x. SharedPtr_ptr s d T0 Y (Some (a, 0)) = Inr s1 \<and>
            SharedPtr_move_conv s1 h T d = Inr s2 \<and>
            vars s2 h = Some x \<and> elem_type x = T \<and> control_block x = Some (next_addr s) \<and>
            SharedPtr_dtor s2 h = Inr s3 \<and>
            trace s3 = trace s2 @ [Destroy Y (a, 0), Free a, Free (next_addr s)] \<and>
            objects s3 a = None) \<and>
         (\<exists>s1 s2 s3 x. MakeShared s d Y ctor args = Inr s1 \<and>
            SharedPtr_move_conv s1 h T d = Inr s2 \<and>
            vars s2 h = Some x \<and> elem_type x = T \<and> control_block x = Some (next_addr s) \<and>
            SharedPtr_dtor s2 h = Inr s3 \<and>
            trace s3 = trace s2 @ [Destroy Y (next_addr s, 0), Free (next_addr s)])"
proof -
  have p1: "\<exists>s1 s2 s3 s4 x. SharedPtr_ptr s d T0 Y (Some (a, 0)) = Inr s1 \<and>
            SharedPtr_copy_conv s1 h T d = Inr s2 \<and>
            vars s2 h = Some x \<and> elem_type x = T \<and> control_block x = Some (next_addr s) \<and>
            SharedPtr_dtor s2 d = Inr s3 \<and>
            trace s3 = trace s2 @ [Dec (next_addr s)] \<and>
            SharedPtr_dtor s3 h = Inr s4 \<and>
            trace s4 = trace s3 @ [Destroy Y (a, 0), Free a, Free (next_addr s)] \<and>
            objects s4 a = None"
    using assms
    by (simp add: SharedPtr_ptr_def new_block_def set_handle_def SharedPtr_copy_conv_def
        acquire_def increment_def SharedPtr_dtor_def release_def delete_block_def)
  have p2: "\<exists>s1 s2 s3 x. SharedPtr_ptr s d T0 Y (Some (a, 0)) = Inr s1 \<and>
            SharedPtr_move_conv s1 h T d = Inr s2 \<and>
            vars s2 h = Some x \<and> elem_type x = T \<and> control_block x = Some (next_addr s) \<and>
            SharedPtr_dtor s2 h = Inr s3 \<and>
            trace s3 = trace s2 @ [Destroy Y (a, 0), Free a, Free (next_addr s)] \<and>
            objects s3 a = None"
    using assms
    by (simp add: SharedPtr_ptr_def new_block_def set_handle_def SharedPtr_move_conv_def
        SharedPtr_dtor_def release_def delete_block_def)
  have p3: "\<exists>s1 s2 s3 x. MakeShared s d Y ctor args = Inr s1 \<and>
            SharedPtr_move_conv s1 h T d = Inr s2 \<and>
            vars s2 h = Some x \<and> elem_type x = T \<and> control_block x = Some (next_addr s) \<and>
            SharedPtr_dtor s2 h = Inr s3 \<and>
            trace s3 = trace s2 @ [Destroy Y (next_addr s, 0), Free (next_addr s)]"
    using assms
    by (simp add: MakeShared_def SharedPtr_default_def new_block_def set_handle_def
        SharedPtr_move_conv_def SharedPtr_dtor_def release_def delete_block_def)
  from p1 p2 p3 show ?thesis by blast
qed

theorem block_type_decides_destructor_witness:
  "objects lone_object_state 0 = Some [5] \<and>
   (\<exists>s1 s2 s3 s4. SharedPtr_ptr lone_object_state 0 ''Base'' ''Derived''
                     (Some (0, 0)) = Inr s1 \<and>
      SharedPtr_copy_conv s1 1 ''Base'' 0 = Inr s2 \<and>
      SharedPtr_dtor s2 0 = Inr s3 \<and> SharedPtr_dtor s3 1 = Inr s4 \<and>
      filter is_Destroy (trace s4) = [Destroy ''Derived'' (0, 0)]) \<and>
   (\<exists>s1 s2 s3. SharedPtr_ptr lone_object_state 0 ''Base'' ''Derived''
                     (Some (0, 0)) = Inr s1 \<and>
      SharedPtr_move_conv s1 1 ''Base'' 0 = Inr s2 \<and>
      SharedPtr_dtor s2 1 = Inr s3 \<and>
      filter is_Destroy (trace s3) = [Destroy ''Derived'' (0, 0)]) \<and>
   (\<exists>s1 s2 s3. MakeShared lone_object_state 0 ''Derived''
                     (\<lambda>u::unit. [0]) () = Inr s1 \<and>
      SharedPtr_move_conv s1 1 ''Base'' 0 = Inr s2 \<and>
      SharedPtr_dtor s2 1 = Inr s3 \<and>
      filter is_Destroy (trace s3) = [Destroy ''Derived'' (1, 0)])"
proof -
  let ?s = "lone_object_state"
  have h1: "objects ?s 0 = Some [5]" by (simp add: lone_object_state_def)
  have h2: "(0::nat) \<noteq> 1" by simp
  have tr: "trace ?s = [Alloc 0]" "next_addr ?s = 1"
    by (simp_all add: lone_object_state_def)
  note inst = block_type_decides_destructor
      [OF h1 h2, of "''Base''" "''Derived''" "''Base''" "\<lambda>u::unit. [0]" "()"]
  from inst [THEN conjunct1]
  obtain s1 s2 s3 s4 where a: "SharedPtr_ptr ?s 0 ''Base'' ''Derived'' (Some (0, 0)) = Inr s1"
      "SharedPtr_copy_conv s1 1 ''Base'' 0 = Inr s2"
      "SharedPtr_dtor s2 0 = Inr s3" "trace s3 = trace s2 @ [Dec (next_addr ?s)]"
      "SharedPtr_dtor s3 1 = Inr s4"
      "trace s4 = trace s3 @ [Destroy ''Derived'' (0, 0), Free 0, Free (next_addr ?s)]"
    by blast
  have "trace s2 = [Alloc 0, Alloc 1, Inc 1]"
    using a(1,2) tr
    by (auto simp: SharedPtr_ptr_def new_block_def set_handle_def SharedPtr_copy_conv_def
        acquire_def increment_def)
  with a have p1: "\<exists>s1 s2 s3 s4. SharedPtr_ptr ?s 0 ''Base'' ''Derived''
                     (Some (0, 0)) = Inr s1 \<and>
      SharedPtr_copy_conv s1 1 ''Base'' 0 = Inr s2 \<and>
      SharedPtr_dtor s2 0 = Inr s3 \<and> SharedPtr_dtor s3 1 = Inr s4 \<and>
      filter is_Destroy (trace s4) = [Destroy ''Derived'' (0, 0)]"
    by simp
  from inst [THEN conjunct2, THEN conjunct1]
  obtain t1 t2 t3 where b: "SharedPtr_ptr ?s 0 ''Base'' ''Derived'' (Some (0, 0)) = Inr t1"
      "SharedPtr_move_conv t1 1 ''Base'' 0 = Inr t2"
      "SharedPtr_dtor t2 1 = Inr t3"
      "trace t3 = trace t2 @ [Destroy ''Derived'' (0, 0), Free 0, Free (next_addr ?s)]"
    by blast
  have "trace t2 = [Alloc 0, Alloc 1]"
    using b(1,2) tr
    by (auto simp: SharedPtr_ptr_def new_block_def set_handle_def SharedPtr_move_conv_def)
  with b have p2: "\<exists>s1 s2 s3. SharedPtr_ptr ?s 0 ''Base'' ''Derived''
                     (Some (0, 0)) = Inr s1 \<and>
      SharedPtr_move_conv s1 1 ''Base'' 0 = Inr s2 \<and>
      SharedPtr_dtor s2 1 = Inr s3 \<and>
      filter is_Destroy (trace s3) = [Destroy ''Derived'' (0, 0)]"
    by simp
  from inst [THEN conjunct2, THEN conjunct2]
  obtain u1 u2 u3 where c: "MakeShared ?s 0 ''Derived'' (\<lambda>u::unit. [0]) () = Inr u1"
      "SharedPtr_move_conv u1 1 ''Base'' 0 = Inr u2"
      "SharedPtr_dtor u2 1 = Inr u3"
      "trace u3 = trace u2 @ [Destroy ''Derived'' (next_addr ?s, 0), Free (next_addr ?s)]"
    by blast
  have "trace u2 = [Alloc 0, Alloc 1]"
    using c(1,2) tr
    by (auto simp: MakeShared_def SharedPtr_default_def new_block_def set_handle_def
        SharedPtr_move_conv_def)
  with c tr have p3: "\<exists>s1 s2 s3. MakeShared ?s 0 ''Derived'' (\<lambda>u::unit. [0]) () = Inr s1 \<and>
      SharedPtr_move_conv s1 1 ''Base'' 0 = Inr s2 \<and>
      SharedPtr_dtor s2 1 = Inr s3 \<and>
      filter is_Destroy (trace s3) = [Destroy ''Derived'' (1, 0)]"
    by simp
  from h1 p1 p2 p3 show ?thesis by blast
qed

text \<open>
  C9. \<open>SharedPtr<T>(static_cast<Y*>(nullptr))\<close> returns normally from every store. The
  handle has null data and a new \<open>ControlBlockPtr<Y>\<close> whose \<open>ptr_\<close> is null and whose count
  is 1, so \<open>UseCount()\<close> is 1. Destroying that handle deallocates the block and nothing
  else: no object is removed and no destructor of a payload runs. When the handle was
  copied before, the first of the two destructions only decrements and the second
  does the same deallocation and nothing else.
\<close>

theorem null_adoption_has_block_and_destroys_nothing:
  "\<exists>s'. SharedPtr_ptr s this T Y None = Inr s' \<and>
     vars s' this =
       Some \<lparr>data = None, control_block = Some (next_addr s), elem_type = T\<rparr> \<and>
     blocks s' (next_addr s) = Some (ControlBlockPtr 1 Y None) \<and>
     Get s' this = Inr None \<and> UseCount s' this = Inr 1 \<and>
     (\<exists>s''. SharedPtr_dtor s' this = Inr s'' \<and>
        blocks s'' (next_addr s) = None \<and> objects s'' = objects s \<and>
        trace s'' = trace s' @ [Free (next_addr s)] \<and>
        filter is_Destroy (trace s'') = filter is_Destroy (trace s)) \<and>
     (g \<noteq> this \<longrightarrow>
        (\<exists>s1 s2 s3. SharedPtr_copy s' g this = Inr s1 \<and> UseCount s1 g = Inr 2 \<and>
           SharedPtr_dtor s1 this = Inr s2 \<and>
           trace s2 = trace s1 @ [Dec (next_addr s)] \<and>
           SharedPtr_dtor s2 g = Inr s3 \<and>
           trace s3 = trace s2 @ [Free (next_addr s)] \<and>
           blocks s3 (next_addr s) = None \<and> objects s3 = objects s))"
  by (simp add: SharedPtr_ptr_def new_block_def set_handle_def Get_def UseCount_def
      SharedPtr_dtor_def release_def delete_block_def SharedPtr_copy_def acquire_def
      increment_def)

theorem null_adoption_has_block_and_destroys_nothing_witness:
  "(1::nat) \<noteq> 0 \<and>
   (\<exists>s' s1 s2 s3. SharedPtr_ptr (init_state :: (string, int) state) 0 ''int'' ''int'' None
        = Inr s' \<and>
      UseCount s' 0 = Inr 1 \<and>
      SharedPtr_copy s' 1 0 = Inr s1 \<and> SharedPtr_dtor s1 0 = Inr s2 \<and>
      SharedPtr_dtor s2 1 = Inr s3 \<and>
      trace s3 = [Alloc 0, Inc 0, Dec 0, Free 0])"
proof -
  let ?s = "init_state :: (string, int) state"
  from null_adoption_has_block_and_destroys_nothing [of ?s 0 "''int''" "''int''" 1]
  obtain s' s1 s2 s3 where a: "SharedPtr_ptr ?s 0 ''int'' ''int'' None = Inr s'"
    "UseCount s' 0 = Inr 1"
    "SharedPtr_copy s' 1 0 = Inr s1" "SharedPtr_dtor s1 0 = Inr s2"
    "trace s2 = trace s1 @ [Dec (next_addr ?s)]"
    "SharedPtr_dtor s2 1 = Inr s3"
    "trace s3 = trace s2 @ [Free (next_addr ?s)]"
    by auto
  have "trace s1 = [Alloc 0, Inc 0]"
    using a(1,3)
    by (auto simp: SharedPtr_ptr_def new_block_def set_handle_def SharedPtr_copy_def
        acquire_def increment_def init_state_def)
  with a have "trace s3 = [Alloc 0, Inc 0, Dec 0, Free 0]"
    by (simp add: init_state_def)
  with a show ?thesis by auto
qed

text \<open>
  C10. On a handle with null data and no block, \<open>Reset()\<close> returns normally and leaves
  the whole store as it was (so no block is read, no destructor runs, nothing is
  traced); the handle still reports count 0 and tests false. The destructor returns
  normally as well and only takes the variable out of the store.
\<close>

theorem empty_handle_release_is_noop:
  assumes "vars s h = Some x" "data x = None" "control_block x = None"
  shows "Reset s h = Inr s \<and> UseCount s h = Inr 0 \<and> operator_bool s h = Inr False \<and>
         SharedPtr_dtor s h = Inr (s\<lparr>vars := (vars s)(h := None)\<rparr>)"
proof -
  have "set_handle s h (x\<lparr>data := None, control_block := None\<rparr>) = s"
    using assms by (rule set_handle_cleared)
  then have "Reset s h = Inr s"
    using assms by (simp add: Reset_def)
  then show ?thesis
    using assms by (simp add: SharedPtr_dtor_def UseCount_def operator_bool_def)
qed

theorem empty_handle_release_is_noop_witness:
  "(\<exists>s. SharedPtr_default (init_state :: (string, int) state) 0 ''int'' = Inr s \<and>
      vars s 0 = Some \<lparr>data = None, control_block = None, elem_type = ''int''\<rparr> \<and>
      Reset s 0 = Inr s \<and> UseCount s 0 = Inr 0 \<and> operator_bool s 0 = Inr False \<and>
      SharedPtr_dtor s 0 = Inr init_state)"
proof -
  let ?x = "\<lparr>data = None, control_block = None, elem_type = ''int''\<rparr>"
  let ?s = "set_handle (init_state :: (string, int) state) 0 ?x"
  have h1: "vars ?s 0 = Some ?x" by (simp add: set_handle_def)
  have h2: "data ?x = None" by simp
  have h3: "control_block ?x = None" by simp
  note inst = empty_handle_release_is_noop [OF h1 h2 h3]
  have "?s\<lparr>vars := (vars ?s)(0 := None)\<rparr> = init_state"
    by (simp add: set_handle_def init_state_def)
  with inst h1 show ?thesis
    by (simp add: SharedPtr_default_def)
qed

end
